theory Spec2Isabelle
  imports Complex_Main
begin

section \<open>JavaScript strings and objects\<close>

text \<open>
  Strings are lists of characters. The character classes below are the ASCII ones:
  \<open>\d\<close> of a regular expression without the unicode flag is exactly \<open>0\<close> to \<open>9\<close>;
  \<open>trim\<close> and \<open>toLowerCase\<close> are modelled on their ASCII range.
\<close>

definition isDigit :: "char \<Rightarrow> bool" where
  "isDigit c \<longleftrightarrow> c \<in> set ''0123456789''"

definition isSpace :: "char \<Rightarrow> bool" where
  "isSpace c \<longleftrightarrow> c \<in> set [CHR 0x09, CHR 0x0A, CHR 0x0B, CHR 0x0C, CHR 0x0D, CHR '' '']"

definition trim :: "string \<Rightarrow> string" where
  "trim s = rev (dropWhile isSpace (rev (dropWhile isSpace s)))"

definition lowerChar :: "char \<Rightarrow> char" where
  "lowerChar c =
     (let n = (of_char c :: nat) in if 65 \<le> n \<and> n \<le> 90 then char_of (n + 32) else c)"

definition toLowerCase :: "string \<Rightarrow> string" where
  "toLowerCase s = map lowerChar s"

definition startsWith :: "string \<Rightarrow> string \<Rightarrow> bool" where
  "startsWith s p \<longleftrightarrow> take (length p) s = p"

definition endsWith :: "string \<Rightarrow> string \<Rightarrow> bool" where
  "endsWith s p \<longleftrightarrow> length p \<le> length s \<and> drop (length s - length p) s = p"

fun includesStr :: "string \<Rightarrow> string \<Rightarrow> bool" where
  "includesStr [] p = (p = [])"
| "includesStr (c # cs) p = (startsWith (c # cs) p \<or> includesStr cs p)"

text \<open>The integer that a run of decimal digits denotes.\<close>

definition decimalValue :: "string \<Rightarrow> int" where
  "decimalValue ds = foldl (\<lambda>n c. 10 * n + (of_char c - 48)) 0 ds"

text \<open>
  \<open>Number.parseInt\<close> of a run of decimal digits returns a number, that is, a double:
  the integer the digits denote when it is below \<open>2 ^ 53\<close>, otherwise the nearest
  multiple of the spacing of the doubles at that size (a tie goes to the even
  significand), and \<open>Infinity\<close> when that reaches \<open>2 ^ 1024\<close>. \<open>bitLength n\<close> is the
  number of binary digits of \<open>n\<close>.
\<close>

datatype Number = Finite int | PositiveInfinity

function bitLength :: "int \<Rightarrow> nat" where
  "bitLength n = (if n \<le> 0 then 0 else Suc (bitLength (n div 2)))"
  by pat_completeness auto
termination
  by (relation "measure nat") auto

declare bitLength.simps [simp del]

definition roundToDouble :: "int \<Rightarrow> Number" where
  "roundToDouble n =
     (if n < 2 ^ 53 then Finite n
      else
        (let p = 2 ^ (bitLength n - 53); q = n div p; r = n mod p;
             m = (if p < 2 * r \<or> (2 * r = p \<and> odd q) then q + 1 else q)
         in if 2 ^ 1024 \<le> m * p then PositiveInfinity else Finite (m * p)))"

definition parseInt :: "string \<Rightarrow> Number" where
  "parseInt ds = roundToDouble (decimalValue ds)"

text \<open>
  An object with string keys is an association list in the order its properties were
  created. \<open>assign obj k v\<close> is the statement \<open>obj[k] = v\<close>: an existing property keeps
  its place and takes the new value, a new one goes to the end. \<open>objectEntries\<close> is
  \<open>Object.entries\<close>: the array-index keys in ascending numeric order first, then the
  other keys in creation order. The key \<open>__proto__\<close> is not modelled.
\<close>

definition assign :: "(string \<times> 'v) list \<Rightarrow> string \<Rightarrow> 'v \<Rightarrow> (string \<times> 'v) list" where
  "assign obj k v =
     (if k \<in> fst ` set obj then map (\<lambda>kv. if fst kv = k then (k, v) else kv) obj
      else obj @ [(k, v)])"

definition isArrayIndex :: "string \<Rightarrow> bool" where
  "isArrayIndex k \<longleftrightarrow>
     k \<noteq> [] \<and> list_all isDigit k \<and> (k = ''0'' \<or> hd k \<noteq> CHR ''0'') \<and> decimalValue k < 4294967295"

definition objectEntries :: "(string \<times> 'v) list \<Rightarrow> (string \<times> 'v) list" where
  "objectEntries obj =
     sort_key (\<lambda>kv. decimalValue (fst kv)) (filter (\<lambda>kv. isArrayIndex (fst kv)) obj)
       @ filter (\<lambda>kv. \<not> isArrayIndex (fst kv)) obj"

text \<open>
  A call either returns a value or throws: \<open>Inl\<close> carries what was thrown. For an
  \<open>async\<close> function \<open>Inl\<close> is the rejection of its promise and \<open>Inr\<close> the value it
  resolves with.
\<close>

datatype error = Error string

definition try_catch :: "error + 'a \<Rightarrow> (error \<Rightarrow> error + 'a) \<Rightarrow> error + 'a" where
  "try_catch body handler = (case body of Inl e \<Rightarrow> handler e | Inr v \<Rightarrow> Inr v)"

section \<open>The style resolver\<close>

subsection \<open>Style definitions\<close>

text \<open>
  The colour and style types are imported by the resolver from the slide model; the
  fields below are the ones the resolver writes.
\<close>

record RgbColor =
  red :: real
  green :: real
  blue :: real

record OpaqueColor =
  rgbColor :: RgbColor

record Color =
  opaqueColor :: OpaqueColor

record Dimension =
  magnitude :: Number
  unit :: string

record StyleDefinition =
  bold :: "bool option"
  italic :: "bool option"
  underline :: "bool option"
  strikethrough :: "bool option"
  smallCaps :: "bool option"
  fontFamily :: "string option"
  fontSize :: "Dimension option"
  foregroundColor :: "Color option"
  backgroundColor :: "Color option"

type_synonym CssRule = "(string \<times> string) list"
type_synonym Stylesheet = "(string \<times> CssRule) list"

subsection \<open>Colours\<close>

text \<open>
  \<open>parseColor\<close> is the library function of the package \<open>parse-color\<close>; it is a
  parameter here. Of its result the resolver reads the field \<open>rgba\<close> only, which is
  a four-element array of numbers or undefined. Numbers are real numbers here, so the
  division by 255 is exact.
\<close>

record ParsedColor =
  rgba :: "(real \<times> real \<times> real \<times> real) option"

definition parseColorString :: "(string \<Rightarrow> ParsedColor) \<Rightarrow> string \<Rightarrow> Color option" where
  "parseColorString parseColor hexString =
     (let c = parseColor hexString in
      case rgba c of
        None \<Rightarrow> None
      | Some (r, g, b, a) \<Rightarrow>
          Some \<lparr>opaqueColor = \<lparr>rgbColor = \<lparr>red = r / 255, green = g / 255, blue = b / 255\<rparr>\<rparr>\<rparr>)"

subsection \<open>Applying a rule to a style\<close>

text \<open>
  \<open>camelCase\<close> is lodash's function and a parameter. \<open>normalizeKeys\<close> is
  \<open>_.mapKeys\<close> with it: the properties of the rule are visited in enumeration order
  and each value is assigned to the new key.
\<close>

definition normalizeKeys :: "(string \<Rightarrow> string) \<Rightarrow> CssRule \<Rightarrow> CssRule" where
  "normalizeKeys camelCase css =
     foldl (\<lambda>acc kv. assign acc (camelCase (fst kv)) (snd kv)) [] (objectEntries css)"

text \<open>
  The first match of \<open>/(\d+)(?:pt)?/\<close> in a string: its group 1 is the first maximal
  run of digits, and there is no match when the string has no digit.
\<close>

definition fontSizeMatch :: "string \<Rightarrow> string option" where
  "fontSizeMatch v =
     (let rest = dropWhile (\<lambda>c. \<not> isDigit c) v in
      if rest = [] then None else Some (takeWhile isDigit rest))"

text \<open>The body of the loop of \<open>updateStyleDefinition\<close>: one \<open>switch\<close> on the key.\<close>

definition applyDeclaration ::
  "(string \<Rightarrow> ParsedColor) \<Rightarrow> StyleDefinition \<Rightarrow> string \<times> string \<Rightarrow> StyleDefinition" where
  "applyDeclaration parseColor style kv =
     (let key = fst kv; v = snd kv in
      if key = ''color'' then style\<lparr>foregroundColor := parseColorString parseColor v\<rparr>
      else if key = ''backgroundColor'' then
        style\<lparr>backgroundColor := parseColorString parseColor v\<rparr>
      else if key = ''fontWeight'' then
        (if v = ''bold'' then style\<lparr>bold := Some True\<rparr> else style)
      else if key = ''fontStyle'' then
        (if v = ''italic'' then style\<lparr>italic := Some True\<rparr>
         else if v = ''underline'' then style\<lparr>underline := Some True\<rparr>
         else if v = ''line-through'' then style\<lparr>strikethrough := Some True\<rparr>
         else style)
      else if key = ''fontFamily'' then style\<lparr>fontFamily := Some v\<rparr>
      else if key = ''fontVariant'' then
        (if v = ''small-caps'' then style\<lparr>smallCaps := Some True\<rparr> else style)
      else if key = ''fontSize'' then
        (case fontSizeMatch v of
           None \<Rightarrow> style
         | Some ds \<Rightarrow> style\<lparr>fontSize := Some \<lparr>magnitude = parseInt ds, unit = ''PT''\<rparr>\<rparr>)
      else style)"

definition updateStyleDefinition ::
  "(string \<Rightarrow> string) \<Rightarrow> (string \<Rightarrow> ParsedColor) \<Rightarrow> CssRule \<Rightarrow> StyleDefinition
     \<Rightarrow> StyleDefinition" where
  "updateStyleDefinition camelCase parseColor css style =
     foldl (applyDeclaration parseColor) style (objectEntries (normalizeKeys camelCase css))"

text \<open>The keys that have a case of their own in the \<open>switch\<close>.\<close>

definition recognized :: "string \<Rightarrow> bool" where
  "recognized key \<longleftrightarrow>
     key \<in> set [''color'', ''backgroundColor'', ''fontWeight'', ''fontStyle'', ''fontFamily'',
                ''fontVariant'', ''fontSize'']"

subsection \<open>Style sheets\<close>

text \<open>
  \<open>css.parse\<close> is the parser of the package \<open>css\<close> and a parameter: it throws on
  malformed input or returns a syntax tree. Of a tree the resolver reads the fields
  below; a field that may be undefined is an option. \<open>declarationsToRule\<close> of the
  package \<open>inline-styles-parse\<close> is a parameter too: it builds the text of a style
  sheet with one rule around the declarations.
\<close>

record Declaration =
  declarationType :: string
  property :: "string option"
  declarationValue :: "string option"

record Rule =
  ruleType :: string
  selectors :: "string list option"
  declarations :: "Declaration list option"

record StyleSheetNode =
  rules :: "Rule list option"

record ParsedCss =
  stylesheet :: "StyleSheetNode option"

definition addDeclaration :: "CssRule \<Rightarrow> Declaration \<Rightarrow> CssRule" where
  "addDeclaration decls d =
     (case (property d, declarationValue d) of
        (Some p, Some v) \<Rightarrow>
          if declarationType d = ''declaration'' \<and> p \<noteq> [] then assign decls p v else decls
      | _ \<Rightarrow> decls)"

definition addRule :: "Stylesheet \<Rightarrow> Rule \<Rightarrow> Stylesheet" where
  "addRule result rule =
     (case (selectors rule, declarations rule) of
        (Some sels, Some ds) \<Rightarrow>
          if ruleType rule \<noteq> ''rule'' then result
          else foldl (\<lambda>res selector. assign res selector (foldl addDeclaration [] ds)) result sels
      | _ \<Rightarrow> result)"

definition convertCssToObject ::
  "(string \<Rightarrow> error + ParsedCss) \<Rightarrow> string \<Rightarrow> error + Stylesheet" where
  "convertCssToObject cssParse cssString =
     (if cssString = [] \<or> trim cssString = [] then Inr []
      else
        try_catch
          (case cssParse cssString of
             Inl e \<Rightarrow> Inl e
           | Inr parsed \<Rightarrow>
               (case stylesheet parsed of
                  None \<Rightarrow> Inr []
                | Some sheet \<Rightarrow>
                    (case rules sheet of
                       None \<Rightarrow> Inr []
                     | Some rs \<Rightarrow> Inr (foldl addRule [] rs))))
          (\<lambda>err. Inr []))"

definition parseStyleSheet ::
  "(string \<Rightarrow> error + ParsedCss) \<Rightarrow> string option \<Rightarrow> error + Stylesheet" where
  "parseStyleSheet cssParse sheet =
     (case sheet of
        None \<Rightarrow> Inr []
      | Some s \<Rightarrow> if s = [] then Inr [] else convertCssToObject cssParse s)"

definition parseInlineStyle ::
  "(string \<Rightarrow> error + ParsedCss) \<Rightarrow> (string \<Rightarrow> string) \<Rightarrow> string \<Rightarrow> error + CssRule" where
  "parseInlineStyle cssParse declarationsToRule inlineStyle =
     (let dummyRule = declarationsToRule inlineStyle in
      case convertCssToObject cssParse dummyRule of
        Inl e \<Rightarrow> Inl e
      | Inr converted \<Rightarrow>
          (case map_of converted ''.dummy'' of
             Some r \<Rightarrow> Inr r
           | None \<Rightarrow> (case map_of converted ''dummy'' of Some r \<Rightarrow> Inr r | None \<Rightarrow> Inr [])))"

section \<open>Images\<close>

subsection \<open>Remote SVG images\<close>

text \<open>
  The image type comes from the slide model: an optional \<open>url\<close>, an optional
  \<open>source\<close> with its \<open>type\<close>, and the placement. Any further field is in the
  extension of the record. \<open>axios.get\<close> and \<open>renderSVG\<close> are parameters: each call is
  awaited, and either fails or gives the body of the reply, respectively the path of
  the PNG file. A body is a string or something else.
\<close>

record ImageDefinition =
  url :: "string option"
  source :: "string option"
  type :: "string option"
  width :: int
  height :: int
  padding :: int
  offsetX :: int
  offsetY :: int

datatype ResponseData = StringData string | OtherData

definition convertRemoteSVG ::
  "(string \<Rightarrow> error + ResponseData) \<Rightarrow> ('a ImageDefinition_scheme \<Rightarrow> error + string)
     \<Rightarrow> 'a ImageDefinition_scheme \<Rightarrow> error + 'a ImageDefinition_scheme" where
  "convertRemoteSVG axiosGet renderSVG img =
     (case url img of
        None \<Rightarrow> Inr img
      | Some u \<Rightarrow>
          if u = [] then Inr img
          else if \<not> endsWith (toLowerCase u) ''.svg'' then Inr img
          else if startsWith u ''file://'' then Inr img
          else
            try_catch
              (case axiosGet u of
                 Inl e \<Rightarrow> Inl e
               | Inr OtherData \<Rightarrow> Inr img
               | Inr (StringData svgContent) \<Rightarrow>
                   if \<not> includesStr (trim svgContent) ''<svg'' then Inr img
                   else
                     (let tempImage = img\<lparr>source := Some svgContent, type := Some ''svg''\<rparr> in
                      case renderSVG tempImage of
                        Inl e \<Rightarrow> Inl e
                      | Inr pngPath \<Rightarrow> Inr (img\<lparr>url := Some (''file://'' @ pngPath)\<rparr>)))
              (\<lambda>err. Inr img))"

subsection \<open>Uploading a local image\<close>

text \<open>
  \<open>axios.post\<close> is a parameter: the upload fails or gives the body of the reply, an
  object with an optional \<open>status\<close> and an optional \<open>data\<close> that has an optional
  \<open>url\<close>. \<open>JSON.stringify\<close> is a parameter as well. The read stream is destroyed on
  every path, which does not change the outcome.
\<close>

record UploadData =
  dataUrl :: "string option"

record UploadResponse =
  status :: "string option"
  data :: "UploadData option"

text \<open>
  \<open>uploadUrl.replace(/^https?:\/\/tmpfiles\.org\//, 'https://tmpfiles.org/dl/')\<close>
\<close>

definition replaceHost :: "string \<Rightarrow> string" where
  "replaceHost uploadUrl =
     (if startsWith uploadUrl ''https://tmpfiles.org/'' then
        ''https://tmpfiles.org/dl/'' @ drop (length ''https://tmpfiles.org/'') uploadUrl
      else if startsWith uploadUrl ''http://tmpfiles.org/'' then
        ''https://tmpfiles.org/dl/'' @ drop (length ''http://tmpfiles.org/'') uploadUrl
      else uploadUrl)"

text \<open>The url of a reply that has status \<open>success\<close> and a non-empty \<open>data.url\<close>.\<close>

definition uploadedUrl :: "UploadResponse \<Rightarrow> string option" where
  "uploadedUrl responseData =
     (if status responseData \<noteq> Some ''success'' then None
      else case data responseData of
             None \<Rightarrow> None
           | Some d \<Rightarrow> (case dataUrl d of None \<Rightarrow> None | Some u \<Rightarrow> if u = [] then None else Some u))"

definition uploadLocalImage ::
  "(string \<Rightarrow> error + UploadResponse) \<Rightarrow> (UploadResponse \<Rightarrow> string) \<Rightarrow> string \<Rightarrow> error + string" where
  "uploadLocalImage axiosPost stringify filePath =
     (case axiosPost filePath of
        Inl e \<Rightarrow> Inl e
      | Inr responseData \<Rightarrow>
          (case uploadedUrl responseData of
             None \<Rightarrow> Inl (Error (stringify responseData))
           | Some uploadUrl \<Rightarrow> Inr (replaceHost uploadUrl)))"

section \<open>The slide model and the request generator\<close>

subsection \<open>Slide definitions\<close>

text \<open>
  Modelled from the spec: the slide model (section 3 of the specification), which the
  sources import and the tests of the layout build by hand. A range covers the
  characters from \<open>start\<close> up to, not including, \<open>end\<close>. A style range carries its
  set of effects, a list range its kind and depth.
\<close>

record Range =
  start :: nat
  end' :: nat

record StyleRange = Range +
  effect :: StyleDefinition

datatype ListKind = Ordered | Unordered

record ListRange = Range +
  kind :: ListKind
  nestingDepth :: nat

record TextDefinition =
  rawText :: string
  textRuns :: "StyleRange list"
  listMarkers :: "ListRange list"
  big :: bool

record VideoDefinition =
  videoId :: string
  autoPlay :: bool
  videoWidth :: int
  videoHeight :: int

record BodyDefinition =
  images :: "ImageDefinition list"
  videos :: "VideoDefinition list"
  bodyText :: TextDefinition

record TableDefinition =
  rows :: nat
  columns :: nat
  cells :: "TextDefinition list list"

record SlideDefinition =
  objectId :: string
  title :: "TextDefinition option"
  subtitle :: "TextDefinition option"
  speakerNotes :: "TextDefinition option"
  bodies :: "BodyDefinition list"
  tables :: "TableDefinition list"
  backgroundImage :: "ImageDefinition option"

text \<open>The invariant of a table: \<open>rows\<close> rows of \<open>columns\<close> cells each.\<close>

definition wellShaped :: "TableDefinition \<Rightarrow> bool" where
  "wellShaped t \<longleftrightarrow> length (cells t) = rows t \<and> list_all (\<lambda>row. length row = columns t) (cells t)"

subsection \<open>Mutation operations\<close>

text \<open>
  Modelled from the spec: the operations of the batch (sections 2 and 4.4), with the
  fields that the tests of the layout read from them. A text operation addresses an
  element and, inside a table, a cell of it.
\<close>

record CellLocation =
  rowIndex :: nat
  columnIndex :: nat

datatype Request =
    CreateSlide string string
  | CreateShape string string
  | InsertText string "CellLocation option" string
  | UpdateTextStyle string "CellLocation option" nat nat StyleDefinition
  | CreateParagraphBullets string "CellLocation option" nat nat ListKind
  | CreateTable string string nat nat
  | CreateImage string string
  | CreateVideo string string
  | UpdatePageProperties string string

text \<open>The container a text operation addresses; the other operations address none.\<close>

fun addresses :: "Request \<Rightarrow> (string \<times> CellLocation option) option" where
  "addresses (InsertText oid cell txt) = Some (oid, cell)"
| "addresses (UpdateTextStyle oid cell s e st) = Some (oid, cell)"
| "addresses (CreateParagraphBullets oid cell s e k) = Some (oid, cell)"
| "addresses q = None"

fun isInsertText :: "Request \<Rightarrow> bool" where
  "isInsertText (InsertText oid cell txt) = True"
| "isInsertText q = False"

fun isCreateTable :: "Request \<Rightarrow> bool" where
  "isCreateTable (CreateTable tid page r c) = True"
| "isCreateTable q = False"

fun cellInsertion :: "string \<Rightarrow> Request \<Rightarrow> bool" where
  "cellInsertion tid (InsertText oid (Some loc) txt) = (oid = tid)"
| "cellInsertion tid q = False"

text \<open>\<open>precedes a b xs\<close>: \<open>b\<close> occurs in \<open>xs\<close> after the first occurrence of \<open>a\<close>.\<close>

definition precedes :: "'a \<Rightarrow> 'a \<Rightarrow> 'a list \<Rightarrow> bool" where
  "precedes a b xs \<longleftrightarrow> b \<in> set (drop 1 (dropWhile (\<lambda>x. x \<noteq> a) xs))"

subsection \<open>Binding a layout\<close>

text \<open>
  Modelled from the spec: the binding of the layout matcher (section 4.3), whose source
  is not among the files. A template exposes placeholders with the identifiers of its
  elements. Binding maps a placeholder to the identifier found in the template; a
  title, subtitle or notes placeholder that the template lacks stays unbound. The first
  body is bound to the body element of the template, or to the allocated
  \<open><slide id>-element\<close>. The second body column is bound to the sibling of the first
  body element, the identifier with \<open>-2\<close> appended: \<open><slide id>-element-2\<close> next to
  \<open><slide id>-element\<close>, and \<open>body-element-2\<close> next to \<open>body-element\<close> in the test of
  the layout. The identifiers of the tables are allocated from the slide's by
  \<open>tableIdOf\<close>.
\<close>

datatype Placeholder = TITLE | SUBTITLE | BODY | SPEAKER_NOTES

record LayoutTemplate =
  layoutName :: string
  placeholders :: "(Placeholder \<times> string) list"

record BoundLayout =
  layout :: string
  titleElement :: "string option"
  subtitleElement :: "string option"
  bodyElements :: "string list"
  tableElements :: "string list"
  notesElement :: "string option"
  allocated :: "string list"

definition bindBody :: "LayoutTemplate \<Rightarrow> string \<Rightarrow> string" where
  "bindBody template generated =
     (case map_of (placeholders template) BODY of Some oid \<Rightarrow> oid | None \<Rightarrow> generated)"

definition bind ::
  "(string \<Rightarrow> nat \<Rightarrow> string) \<Rightarrow> LayoutTemplate \<Rightarrow> SlideDefinition \<Rightarrow> BoundLayout" where
  "bind tableIdOf template slide =
     \<lparr>layout = layoutName template,
      titleElement = map_of (placeholders template) TITLE,
      subtitleElement = map_of (placeholders template) SUBTITLE,
      bodyElements =
        [bindBody template (objectId slide @ ''-element''),
         bindBody template (objectId slide @ ''-element'') @ ''-2''],
      tableElements = map (tableIdOf (objectId slide)) [0..<length (tables slide)],
      notesElement = map_of (placeholders template) SPEAKER_NOTES,
      allocated =
        (case map_of (placeholders template) BODY of
           Some oid \<Rightarrow> [] | None \<Rightarrow> [objectId slide @ ''-element''])
        @ (if 1 < length (bodies slide)
           then [bindBody template (objectId slide @ ''-element'') @ ''-2''] else [])\<rparr>"

subsection \<open>Generating the requests\<close>

text \<open>
  Modelled from the spec: the request generator (section 4.4), whose source is not among
  the files; the test calls it as \<open>appendContentRequests\<close>. For a text container the
  plain text is inserted first, then come the style ranges and then the bullet ranges,
  each in the order of the definition. A table is created and its cells are filled row
  by row, each cell as a text container of its own. The page is created before anything
  that refers to it, and an allocated element before its text.
\<close>

definition textRequests :: "string \<Rightarrow> CellLocation option \<Rightarrow> TextDefinition \<Rightarrow> Request list" where
  "textRequests oid cell t =
     InsertText oid cell (rawText t)
       # map (\<lambda>run. UpdateTextStyle oid cell (start run) (end' run) (effect run)) (textRuns t)
       @ map (\<lambda>m. CreateParagraphBullets oid cell (start m) (end' m) (kind m)) (listMarkers t)"

fun rowRequests :: "string \<Rightarrow> nat \<Rightarrow> nat \<Rightarrow> TextDefinition list \<Rightarrow> Request list" where
  "rowRequests tid r c [] = []"
| "rowRequests tid r c (cell # row) =
     textRequests tid (Some \<lparr>rowIndex = r, columnIndex = c\<rparr>) cell @ rowRequests tid r (Suc c) row"

fun cellRequests :: "string \<Rightarrow> nat \<Rightarrow> TextDefinition list list \<Rightarrow> Request list" where
  "cellRequests tid r [] = []"
| "cellRequests tid r (row # rest) = rowRequests tid r 0 row @ cellRequests tid (Suc r) rest"

definition tableRequests :: "string \<Rightarrow> string \<Rightarrow> TableDefinition \<Rightarrow> Request list" where
  "tableRequests page tid t =
     CreateTable tid page (rows t) (columns t) # cellRequests tid 0 (cells t)"

definition imageRequests :: "string \<Rightarrow> ImageDefinition list \<Rightarrow> Request list" where
  "imageRequests page imgs =
     concat (map (\<lambda>img. case url img of None \<Rightarrow> [] | Some u \<Rightarrow> [CreateImage page u]) imgs)"

definition bodyRequests :: "string \<Rightarrow> BodyDefinition \<times> string \<Rightarrow> Request list" where
  "bodyRequests page bo =
     textRequests (snd bo) None (bodyText (fst bo))
       @ imageRequests page (images (fst bo))
       @ map (\<lambda>v. CreateVideo page (videoId v)) (videos (fst bo))"

definition placeholderRequests :: "TextDefinition option \<Rightarrow> string option \<Rightarrow> Request list" where
  "placeholderRequests t element =
     (case (t, element) of (Some txt, Some oid) \<Rightarrow> textRequests oid None txt | _ \<Rightarrow> [])"

definition backgroundRequests :: "string \<Rightarrow> ImageDefinition option \<Rightarrow> Request list" where
  "backgroundRequests page bg =
     (case bg of
        None \<Rightarrow> []
      | Some img \<Rightarrow> (case url img of None \<Rightarrow> [] | Some u \<Rightarrow> [UpdatePageProperties page u]))"

definition contentRequests :: "BoundLayout \<Rightarrow> SlideDefinition \<Rightarrow> Request list" where
  "contentRequests bound slide =
     placeholderRequests (title slide) (titleElement bound)
       @ placeholderRequests (subtitle slide) (subtitleElement bound)
       @ backgroundRequests (objectId slide) (backgroundImage slide)
       @ concat (map (\<lambda>tt. tableRequests (objectId slide) (snd tt) (fst tt))
           (zip (tables slide) (tableElements bound)))
       @ concat (map (bodyRequests (objectId slide)) (zip (bodies slide) (bodyElements bound)))
       @ placeholderRequests (speakerNotes slide) (notesElement bound)"

definition appendContentRequests ::
  "BoundLayout \<Rightarrow> SlideDefinition \<Rightarrow> Request list \<Rightarrow> Request list" where
  "appendContentRequests bound slide requests = requests @ contentRequests bound slide"

definition generate :: "BoundLayout \<Rightarrow> SlideDefinition \<Rightarrow> Request list" where
  "generate bound slide =
     appendContentRequests bound slide
       (CreateSlide (objectId slide) (layout bound)
          # map (\<lambda>oid. CreateShape oid (objectId slide)) (allocated bound))"

text \<open>
  The elements that hold text must be different elements: no identifier is bound twice.
\<close>

definition distinctElements :: "BoundLayout \<Rightarrow> bool" where
  "distinctElements bound \<longleftrightarrow>
     distinct (bodyElements bound @ tableElements bound
       @ (case titleElement bound of None \<Rightarrow> [] | Some oid \<Rightarrow> [oid])
       @ (case subtitleElement bound of None \<Rightarrow> [] | Some oid \<Rightarrow> [oid])
       @ (case notesElement bound of None \<Rightarrow> [] | Some oid \<Rightarrow> [oid]))"

section \<open>Sample inputs\<close>

text \<open>
  Stand-ins for the library functions, for evaluation: a colour parser that knows two
  colour strings and gives for them what \<open>parse-color\<close> gives (the components of an
  \<open>rgb(...)\<close> string as they are written), \<open>camelCase\<close> on keys that are in camel case already (which it leaves as they
  are), a parser that throws, a request that times out.
\<close>

definition plainStyle :: StyleDefinition where
  "plainStyle = \<lparr>bold = None, italic = None, underline = None, strikethrough = None,
     smallCaps = None, fontFamily = None, fontSize = None, foregroundColor = None,
     backgroundColor = None\<rparr>"

definition boldOnly :: StyleDefinition where
  "boldOnly = plainStyle\<lparr>bold := Some True\<rparr>"

definition sampleParseColor :: "string \<Rightarrow> ParsedColor" where
  "sampleParseColor s =
     (if s = ''#ff8000'' then \<lparr>rgba = Some (255, 128, 0, 1)\<rparr>
      else if s = ''rgb(300, 0, 0)'' then \<lparr>rgba = Some (300, 0, 0, 1)\<rparr>
      else \<lparr>rgba = None\<rparr>)"

definition sameKey :: "string \<Rightarrow> string" where
  "sameKey k = k"

definition failingParse :: "string \<Rightarrow> error + ParsedCss" where
  "failingParse s = Inl (Error ''missing closing brace'')"

definition dummyRuleOf :: "string \<Rightarrow> string" where
  "dummyRuleOf s = ''.dummy{'' @ s @ ''}''"

definition kittenImage :: ImageDefinition where
  "kittenImage = \<lparr>url = Some ''https://placekitten.com/350/315'', source = None, type = None,
     width = 350, height = 315, padding = 0, offsetX = 0, offsetY = 0\<rparr>"

definition remoteSvgImage :: ImageDefinition where
  "remoteSvgImage = \<lparr>url = Some ''https://example.com/logo.svg'', source = None, type = None,
     width = 350, height = 315, padding = 0, offsetX = 0, offsetY = 0\<rparr>"

definition failingGet :: "string \<Rightarrow> error + ResponseData" where
  "failingGet u = Inl (Error ''timeout of 30000ms exceeded'')"

definition pngRenderer :: "ImageDefinition \<Rightarrow> error + string" where
  "pngRenderer img = Inr ''/tmp/tmp-1.png''"

definition uploadReply :: "string \<Rightarrow> error + UploadResponse" where
  "uploadReply filePath =
     Inr \<lparr>status = Some ''success'',
          data = Some \<lparr>dataUrl = Some ''http://tmpfiles.org/12345/file.png''\<rparr>\<rparr>"

definition noStringify :: "UploadResponse \<Rightarrow> string" where
  "noStringify r = ''{}''"

text \<open>The inputs of the tests of the layout, and a template with their element names.\<close>

definition plainText :: "string \<Rightarrow> TextDefinition" where
  "plainText s = \<lparr>rawText = s, textRuns = [], listMarkers = [], big = False\<rparr>"

definition sampleLayout :: LayoutTemplate where
  "sampleLayout = \<lparr>layoutName = [],
     placeholders = [(TITLE, ''title-element''), (SUBTITLE, ''subtitle-element''),
       (BODY, ''body-element''), (SPEAKER_NOTES, ''speaker-notes-element'')]\<rparr>"

definition sampleTableId :: "string \<Rightarrow> nat \<Rightarrow> string" where
  "sampleTableId sid n = sid @ ''-table''"




definition formattedText :: TextDefinition where
  "formattedText = \<lparr>
     rawText = ''Item 1'' @ [CHR 0x0A] @ ''Item 2'' @ [CHR 0x0A, CHR 0x09] @ ''foo''
       @ [CHR 0x0A, CHR 0x09] @ ''bar'' @ [CHR 0x0A, CHR 0x09] @ ''baz'' @ [CHR 0x0A]
       @ ''Item 3'' @ [CHR 0x0A],
     textRuns = [\<lparr>start = 0, end' = 4, effect = boldOnly\<rparr>,
       \<lparr>start = 7, end' = 11, effect = plainStyle\<lparr>italic := Some True\<rparr>\<rparr>,
       \<lparr>start = 29, end' = 33, effect = plainStyle\<lparr>fontFamily := Some ''Courier New''\<rparr>\<rparr>],
     listMarkers = [\<lparr>start = 0, end' = 36, kind = Unordered, nestingDepth = 0\<rparr>],
     big = False\<rparr>"

definition formattedSlide :: SlideDefinition where
  "formattedSlide = \<lparr>objectId = ''body-slide'', title = None, subtitle = None,
     speakerNotes = None,
     bodies = [\<lparr>images = [], videos = [], bodyText = formattedText\<rparr>], tables = [],
     backgroundImage = None\<rparr>"

definition animalsTable :: TableDefinition where
  "animalsTable = \<lparr>rows = 5, columns = 2,
     cells = [[plainText ''Animal'', plainText ''Number''],
              [plainText ''Fish'', plainText ''142 million''],
              [plainText ''Cats'', plainText ''88 million''],
              [plainText ''Dogs'', plainText ''75 million''],
              [plainText ''Birds'', plainText ''16 million'']]\<rparr>"

definition tableSlide :: SlideDefinition where
  "tableSlide = \<lparr>objectId = ''body-slide'', title = None, subtitle = None,
     speakerNotes = None, bodies = [], tables = [animalsTable], backgroundImage = None\<rparr>"

section \<open>Properties of the style resolver\<close>

subsection \<open>Keys without a case are skipped\<close>

lemma filter_assign_in: "P k \<Longrightarrow> filter (\<lambda>kv. P (fst kv)) (assign obj k v) = assign (filter (\<lambda>kv. P (fst kv)) obj) k v"
  unfolding assign_def
  by (auto simp: filter_map o_def image_iff intro!: filter_cong map_cong)

lemma filter_assign_out: "\<not> P k \<Longrightarrow> filter (\<lambda>kv. P (fst kv)) (assign obj k v) = filter (\<lambda>kv. P (fst kv)) obj"
proof -
  assume np: "\<not> P k"
  have "filter (\<lambda>kv. P (fst kv)) (map (\<lambda>kv. if fst kv = k then (k, v) else kv) obj)
        = filter (\<lambda>kv. P (fst kv)) obj"
    using np by (induction obj) auto
  then show ?thesis using np by (simp add: assign_def)
qed

lemma objectEntries_filter:
  "objectEntries (filter (\<lambda>kv. P (fst kv)) obj) = filter (\<lambda>kv. P (fst kv)) (objectEntries obj)"
  unfolding objectEntries_def
  by (simp add: filter_sort conj_commute)

lemma applyDeclaration_unrecognized:
  "\<not> recognized (fst kv) \<Longrightarrow> applyDeclaration pc st kv = st"
  by (simp add: applyDeclaration_def recognized_def Let_def)

lemma foldl_applyDeclaration_filter:
  "foldl (applyDeclaration pc) st (filter (\<lambda>kv. recognized (fst kv)) xs) = foldl (applyDeclaration pc) st xs"
  by (induction xs arbitrary: st) (simp_all add: applyDeclaration_unrecognized)

lemma foldl_assign_filter:
  "foldl (\<lambda>acc kv. assign acc (cc (fst kv)) (snd kv)) (filter (\<lambda>kv. P (fst kv)) acc)
      (filter (\<lambda>kv. P (cc (fst kv))) xs)
   = filter (\<lambda>kv. P (fst kv)) (foldl (\<lambda>acc kv. assign acc (cc (fst kv)) (snd kv)) acc xs)"
proof (induction xs arbitrary: acc)
  case Nil
  show ?case by simp
next
  case (Cons x xs)
  show ?case
  proof (cases "P (cc (fst x))")
    case True
    then show ?thesis
      using Cons.IH [of "assign acc (cc (fst x)) (snd x)"]
      by (simp add: filter_assign_in)
  next
    case False
    then show ?thesis
      using Cons.IH [of "assign acc (cc (fst x)) (snd x)"]
      by (simp add: filter_assign_out)
  qed
qed

lemma normalizeKeys_filter:
  "normalizeKeys cc (filter (\<lambda>kv. P (cc (fst kv))) css) = filter (\<lambda>kv. P (fst kv)) (normalizeKeys cc css)"
  unfolding normalizeKeys_def
  using foldl_assign_filter [of cc P "[]" "objectEntries css"]
    objectEntries_filter [of "\<lambda>k. P (cc k)" css]
  by simp

lemma updateStyleDefinition_filter:
  "updateStyleDefinition cc pc (filter (\<lambda>kv. recognized (cc (fst kv))) css) st = updateStyleDefinition cc pc css st"
  unfolding updateStyleDefinition_def
  by (simp add: normalizeKeys_filter objectEntries_filter foldl_applyDeclaration_filter)

subsection \<open>Fields written under one key\<close>

lemma map_fst_replace:
  "map fst (map (\<lambda>kv. if fst kv = k then (k, v) else kv) obj) = map fst obj"
  by (induction obj) simp_all

lemma distinct_assign:
  "distinct (map fst obj) \<Longrightarrow> distinct (map fst (assign obj k v))"
  by (auto simp: assign_def map_fst_replace simp del: map_map)

lemma distinct_foldl_assign:
  "distinct (map fst acc) \<Longrightarrow>
   distinct (map fst (foldl (\<lambda>acc kv. assign acc (cc (fst kv)) (snd kv)) acc xs))"
  by (induction xs arbitrary: acc) (simp_all add: distinct_assign)

lemma distinct_normalizeKeys: "distinct (map fst (normalizeKeys cc css))"
  unfolding normalizeKeys_def by (rule distinct_foldl_assign) simp

lemma set_objectEntries: "set (objectEntries obj) = set obj"
  unfolding objectEntries_def by auto

lemma distinct_objectEntries:
  assumes "distinct (map fst obj)"
  shows "distinct (map fst (objectEntries obj))"
proof -
  from assms have d: "distinct obj" and i: "inj_on fst (set obj)"
    by (simp_all add: distinct_map)
  have "distinct (objectEntries obj)"
    unfolding objectEntries_def using d by auto
  moreover have "inj_on fst (set (objectEntries obj))"
    using i by (simp add: set_objectEntries)
  ultimately show ?thesis by (simp add: distinct_map)
qed

lemma map_of_objectEntries:
  assumes "distinct (map fst obj)"
  shows "map_of (objectEntries obj) k = map_of obj k"
proof (cases "map_of obj k")
  case None
  then have "k \<notin> fst ` set obj" by (simp add: map_of_eq_None_iff)
  then have "k \<notin> fst ` set (objectEntries obj)" by (simp add: set_objectEntries)
  then have "map_of (objectEntries obj) k = None" by (rule map_of_eq_None_iff [THEN iffD2])
  then show ?thesis using None by simp
next
  case (Some v)
  then have "(k, v) \<in> set obj" by (rule map_of_SomeD)
  then have "(k, v) \<in> set (objectEntries obj)" by (simp add: set_objectEntries)
  then show ?thesis
    using Some distinct_objectEntries [OF assms] by simp
qed


lemma foregroundColor_applyDeclaration:
  "foregroundColor (applyDeclaration pc st kv) =
     (if fst kv = ''color'' then parseColorString pc (snd kv) else foregroundColor st)"
  by (simp add: applyDeclaration_def Let_def split: option.split)

lemma backgroundColor_applyDeclaration:
  "backgroundColor (applyDeclaration pc st kv) =
     (if fst kv = ''backgroundColor'' then parseColorString pc (snd kv) else backgroundColor st)"
  by (simp add: applyDeclaration_def Let_def split: option.split)

text \<open>A field written by one key only: with distinct keys, the value under that key decides.\<close>

lemma foldl_field:
  assumes step: "\<And>st kv. fld (ap st kv) = (if fst kv = key then g (fld st) (snd kv) else fld st)"
    and d: "distinct (map fst xs)"
  shows "fld (foldl ap st xs) = (case map_of xs key of None \<Rightarrow> fld st | Some v \<Rightarrow> g (fld st) v)"
  using d
proof (induction xs rule: rev_induct)
  case Nil
  show ?case by simp
next
  case (snoc x xs)
  then have d: "distinct (map fst xs)" and nx: "fst x \<notin> fst ` set xs" by auto
  show ?case
  proof (cases "fst x = key")
    case True
    then have "map_of xs key = None" using nx by (simp add: map_of_eq_None_iff)
    moreover have "map_of (xs @ [x]) key = Some (snd x)"
      using True by (cases x) (simp add: map_add_def calculation)
    ultimately show ?thesis using True snoc.IH [OF d] by (simp add: step)
  next
    case False
    then have "map_of (xs @ [x]) key = map_of xs key"
      by (cases x) (simp add: map_add_def split: option.split)
    then show ?thesis using False snoc.IH [OF d] by (simp add: step)
  qed
qed

subsection \<open>Font sizes, unknown keys and colours\<close>

lemma updateStyleDefinition_Nil: "updateStyleDefinition cc pc [] st = st"
  by (simp add: updateStyleDefinition_def normalizeKeys_def objectEntries_def)



lemma field_updateStyleDefinition:
  assumes "\<And>st kv. fld (applyDeclaration pc st kv) = (if fst kv = key then g (fld st) (snd kv) else fld st)"
  shows "fld (updateStyleDefinition cc pc css st) =
           (case map_of (normalizeKeys cc css) key of None \<Rightarrow> fld st | Some v \<Rightarrow> g (fld st) v)"
proof -
  have d: "distinct (map fst (objectEntries (normalizeKeys cc css)))"
    by (rule distinct_objectEntries) (rule distinct_normalizeKeys)
  show ?thesis
    unfolding updateStyleDefinition_def
    using foldl_field [of fld "applyDeclaration pc" key g, OF assms d, of st]
    by (simp add: map_of_objectEntries [OF distinct_normalizeKeys])
qed


lemma fontSizeMatch_Some:
  assumes "fontSizeMatch v = Some ds"
  shows "ds \<noteq> [] \<and> (\<forall>c\<in>set ds. isDigit c) \<and>
         (\<exists>pre post. v = pre @ ds @ post \<and> (\<forall>c\<in>set pre. \<not> isDigit c) \<and>
            (post = [] \<or> \<not> isDigit (hd post)))"
proof -
  let ?rest = "dropWhile (\<lambda>c. \<not> isDigit c) v"
  from assms have ne: "?rest \<noteq> []" and ds: "ds = takeWhile isDigit ?rest"
    by (auto simp: fontSizeMatch_def Let_def split: if_splits)
  from ne have "isDigit (hd ?rest)" using hd_dropWhile [of "\<lambda>c. \<not> isDigit c" v] by simp
  then have "ds \<noteq> []" using ne ds by (cases ?rest) auto
  moreover have "\<forall>c\<in>set ds. isDigit c" using ds by (auto dest: set_takeWhileD)
  moreover have "v = takeWhile (\<lambda>c. \<not> isDigit c) v @ ds @ dropWhile isDigit ?rest"
    using ds by simp
  moreover have "\<forall>c\<in>set (takeWhile (\<lambda>c. \<not> isDigit c) v). \<not> isDigit c"
    by (auto dest: set_takeWhileD)
  moreover have "dropWhile isDigit ?rest = [] \<or> \<not> isDigit (hd (dropWhile isDigit ?rest))"
    using hd_dropWhile [of isDigit ?rest] by blast
  ultimately show ?thesis by blast
qed







text \<open>
  C6. A declaration whose normalized key is none of \<open>color\<close>, \<open>backgroundColor\<close>,
  \<open>fontWeight\<close>, \<open>fontStyle\<close>, \<open>fontFamily\<close>, \<open>fontVariant\<close>, \<open>fontSize\<close> is
  ignored, for any value: the result is the one for the rule without such declarations,
  a rule made of them only returns the style unchanged, and nothing is thrown.
\<close>

theorem unknown_properties_ignored:
  "updateStyleDefinition cc pc css st =
     updateStyleDefinition cc pc (filter (\<lambda>kv. recognized (cc (fst kv))) css) st
   \<and> ((\<forall>kv\<in>set css. \<not> recognized (cc (fst kv))) \<longrightarrow> updateStyleDefinition cc pc css st = st)
   \<and> (\<not> recognized key \<longrightarrow> applyDeclaration pc st (key, v) = st)"
proof -
  have a: "updateStyleDefinition cc pc css st =
     updateStyleDefinition cc pc (filter (\<lambda>kv. recognized (cc (fst kv))) css) st"
    by (simp add: updateStyleDefinition_filter)
  have "filter (\<lambda>kv. recognized (cc (fst kv))) css = []"
    if "\<forall>kv\<in>set css. \<not> recognized (cc (fst kv))"
    using that by (simp add: filter_empty_conv)
  then have b: "(\<forall>kv\<in>set css. \<not> recognized (cc (fst kv))) \<longrightarrow> updateStyleDefinition cc pc css st = st"
    using a by (simp add: updateStyleDefinition_Nil)
  show ?thesis using a b by (simp add: applyDeclaration_unrecognized)
qed

text \<open>
  C1, as the code has it. When \<open>parseColor\<close> finds the components \<open>r\<close>, \<open>g\<close>, \<open>b\<close> of a
  colour string, \<open>parseColorString\<close> gives the colour with the channels \<open>r / 255\<close>,
  \<open>g / 255\<close>, \<open>b / 255\<close>; nothing is clamped, so a channel is between 0 and 1 exactly
  when its component is between 0 and 255. When \<open>parseColor\<close> finds no components, the
  result is undefined: no default colour. \<open>updateStyleDefinition\<close> stores that result
  under \<open>color\<close> and \<open>backgroundColor\<close>.
\<close>

theorem color_channels:
  "(rgba (pc s) = None \<longrightarrow> parseColorString pc s = None)
   \<and> (rgba (pc s) = Some (r, g, b, a) \<longrightarrow>
        parseColorString pc s =
          Some \<lparr>opaqueColor = \<lparr>rgbColor = \<lparr>red = r / 255, green = g / 255, blue = b / 255\<rparr>\<rparr>\<rparr>)
   \<and> (rgba (pc s) = Some (r, g, b, a) \<longrightarrow>
        (\<exists>col. parseColorString pc s = Some col
           \<and> ((0 \<le> red (rgbColor (opaqueColor col)) \<and> red (rgbColor (opaqueColor col)) \<le> 1)
                 \<longleftrightarrow> (0 \<le> r \<and> r \<le> 255))
           \<and> ((0 \<le> green (rgbColor (opaqueColor col)) \<and> green (rgbColor (opaqueColor col)) \<le> 1)
                 \<longleftrightarrow> (0 \<le> g \<and> g \<le> 255))
           \<and> ((0 \<le> blue (rgbColor (opaqueColor col)) \<and> blue (rgbColor (opaqueColor col)) \<le> 1)
                 \<longleftrightarrow> (0 \<le> b \<and> b \<le> 255))))
   \<and> foregroundColor (updateStyleDefinition cc pc css st) =
        (case map_of (normalizeKeys cc css) ''color'' of
           None \<Rightarrow> foregroundColor st
         | Some v \<Rightarrow> parseColorString pc v)
   \<and> backgroundColor (updateStyleDefinition cc pc css st) =
        (case map_of (normalizeKeys cc css) ''backgroundColor'' of
           None \<Rightarrow> backgroundColor st
         | Some v \<Rightarrow> parseColorString pc v)"
proof -
  have fg: "foregroundColor (updateStyleDefinition cc pc css st) =
        (case map_of (normalizeKeys cc css) ''color'' of
           None \<Rightarrow> foregroundColor st
         | Some v \<Rightarrow> parseColorString pc v)"
    by (rule field_updateStyleDefinition) (rule foregroundColor_applyDeclaration)
  have bg: "backgroundColor (updateStyleDefinition cc pc css st) =
        (case map_of (normalizeKeys cc css) ''backgroundColor'' of
           None \<Rightarrow> backgroundColor st
         | Some v \<Rightarrow> parseColorString pc v)"
    by (rule field_updateStyleDefinition) (rule backgroundColor_applyDeclaration)
  show ?thesis
    using fg bg by (simp add: parseColorString_def Let_def)
qed

section \<open>Properties of the style sheets\<close>

lemma convertCssToObject_returns: "\<exists>sheet. convertCssToObject cssParse cssString = Inr sheet"
  by (simp add: convertCssToObject_def try_catch_def split: sum.split option.split)

lemma convertCssToObject_catch:
  "cssParse cssString = Inl e \<Longrightarrow> convertCssToObject cssParse cssString = Inr []"
  by (simp add: convertCssToObject_def try_catch_def)

text \<open>
  C7. \<open>parseStyleSheet\<close> and \<open>parseInlineStyle\<close> return an object on every input and
  never throw: an undefined or empty sheet gives the empty object without parsing, and
  when \<open>css.parse\<close> throws, \<open>convertCssToObject\<close> catches it and returns the empty
  style sheet.
\<close>

theorem style_sheets_total:
  "(\<exists>sheet. parseStyleSheet cssParse styles = Inr sheet)
   \<and> (\<exists>rule. parseInlineStyle cssParse declarationsToRule inlineStyle = Inr rule)
   \<and> (\<exists>sheet. convertCssToObject cssParse cssString = Inr sheet)
   \<and> (cssParse cssString = Inl e \<longrightarrow> convertCssToObject cssParse cssString = Inr [])
   \<and> parseStyleSheet cssParse None = Inr []
   \<and> parseStyleSheet cssParse (Some []) = Inr []"
proof -
  have a: "\<exists>sheet. parseStyleSheet cssParse styles = Inr sheet"
    using convertCssToObject_returns [of cssParse]
    by (simp add: parseStyleSheet_def split: option.split)
  obtain converted where c: "convertCssToObject cssParse (declarationsToRule inlineStyle) = Inr converted"
    using convertCssToObject_returns by blast
  have b: "\<exists>rule. parseInlineStyle cssParse declarationsToRule inlineStyle = Inr rule"
    by (simp add: parseInlineStyle_def Let_def c split: option.split)
  show ?thesis
    using a b convertCssToObject_returns [of cssParse cssString]
      convertCssToObject_catch [of cssParse cssString e]
    by (simp add: parseStyleSheet_def)
qed

section \<open>Properties of the image functions\<close>

text \<open>
  C9. An image without a url, or whose url does not end with \<open>.svg\<close> (in any case of
  the letters), or starts with \<open>file://\<close>, is returned as it is, every field unchanged.
\<close>

theorem convertRemoteSVG_identity:
  "url img = None \<or> (\<exists>u. url img = Some u \<and>
      (\<not> endsWith (toLowerCase u) ''.svg'' \<or> startsWith u ''file://''))
   \<Longrightarrow> convertRemoteSVG axiosGet renderSVG img = Inr img"
  by (auto simp: convertRemoteSVG_def)

text \<open>
  C8, as the code has it. \<open>convertRemoteSVG\<close> never rejects. When the download or the
  rendering fails, it resolves with the image it was given, unchanged: the image stays
  in the conversion with its remote url.
\<close>

theorem convertRemoteSVG_failure_keeps_image:
  "(\<exists>im. convertRemoteSVG axiosGet renderSVG img = Inr im)
   \<and> (url img = Some u \<and> axiosGet u = Inl e \<longrightarrow>
        convertRemoteSVG axiosGet renderSVG img = Inr img)
   \<and> (url img = Some u \<and> axiosGet u = Inr (StringData c)
        \<and> renderSVG (img\<lparr>source := Some c, type := Some ''svg''\<rparr>) = Inl e \<longrightarrow>
        convertRemoteSVG axiosGet renderSVG img = Inr img)"
  by (simp add: convertRemoteSVG_def try_catch_def Let_def
      split: option.split sum.split ResponseData.split)

lemma replaceHost_http: "replaceHost (''http://tmpfiles.org/'' @ rest) = ''https://tmpfiles.org/dl/'' @ rest"
  by (simp add: replaceHost_def startsWith_def)

lemma replaceHost_https: "replaceHost (''https://tmpfiles.org/'' @ rest) = ''https://tmpfiles.org/dl/'' @ rest"
  by (simp add: replaceHost_def startsWith_def)

text \<open>
  C10. When the upload request itself fails, \<open>uploadLocalImage\<close> rejects with that
  failure. On a reply it rejects exactly when the status is not \<open>success\<close> or there is
  no non-empty \<open>data.url\<close>; otherwise it resolves with the url after the replacement,
  which turns a leading \<open>http://tmpfiles.org/\<close> or \<open>https://tmpfiles.org/\<close> into
  \<open>https://tmpfiles.org/dl/\<close> and leaves any other url alone.
\<close>

theorem uploadLocalImage_outcome:
  "(axiosPost filePath = Inl e \<longrightarrow> uploadLocalImage axiosPost stringify filePath = Inl e)
   \<and> (axiosPost filePath = Inr r \<longrightarrow>
        (isl (uploadLocalImage axiosPost stringify filePath) \<longleftrightarrow>
           status r \<noteq> Some ''success''
           \<or> \<not> (\<exists>d u. data r = Some d \<and> dataUrl d = Some u \<and> u \<noteq> [])))
   \<and> (axiosPost filePath = Inr r \<and> status r = Some ''success'' \<and> data r = Some d
        \<and> dataUrl d = Some u \<and> u \<noteq> [] \<longrightarrow>
        uploadLocalImage axiosPost stringify filePath = Inr (replaceHost u))
   \<and> replaceHost (''http://tmpfiles.org/'' @ rest) = ''https://tmpfiles.org/dl/'' @ rest
   \<and> replaceHost (''https://tmpfiles.org/'' @ rest) = ''https://tmpfiles.org/dl/'' @ rest
   \<and> (\<not> startsWith u ''http://tmpfiles.org/'' \<and> \<not> startsWith u ''https://tmpfiles.org/'' \<longrightarrow>
        replaceHost u = u)"
proof -
  have a: "axiosPost filePath = Inr r \<longrightarrow>
        (isl (uploadLocalImage axiosPost stringify filePath) \<longleftrightarrow>
           status r \<noteq> Some ''success''
           \<or> \<not> (\<exists>d u. data r = Some d \<and> dataUrl d = Some u \<and> u \<noteq> []))"
    by (auto simp: uploadLocalImage_def uploadedUrl_def split: option.split)
  have b: "axiosPost filePath = Inr r \<and> status r = Some ''success'' \<and> data r = Some d
        \<and> dataUrl d = Some u \<and> u \<noteq> [] \<longrightarrow>
        uploadLocalImage axiosPost stringify filePath = Inr (replaceHost u)"
    by (simp add: uploadLocalImage_def uploadedUrl_def)
  have c: "\<not> startsWith u ''http://tmpfiles.org/'' \<and> \<not> startsWith u ''https://tmpfiles.org/'' \<longrightarrow>
        replaceHost u = u"
    by (simp add: replaceHost_def)
  have d: "axiosPost filePath = Inl e \<longrightarrow> uploadLocalImage axiosPost stringify filePath = Inl e"
    by (simp add: uploadLocalImage_def)
  show ?thesis using a b c d replaceHost_http replaceHost_https by blast
qed

section \<open>Properties of the request generator\<close>

subsection \<open>The operations that address one container\<close>

lemma addresses_textRequests:
  "q \<in> set (textRequests oid cell t) \<Longrightarrow> addresses q = Some (oid, cell)"
  by (auto simp: textRequests_def)

lemma filter_all: "(\<And>x. x \<in> set xs \<Longrightarrow> P x) \<Longrightarrow> filter P xs = xs"
  by (induction xs) auto

lemma filter_none: "(\<And>x. x \<in> set xs \<Longrightarrow> \<not> P x) \<Longrightarrow> filter P xs = []"
  by (induction xs) auto

lemma filter_textRequests:
  "filter (\<lambda>q. addresses q = Some a) (textRequests oid cell t) =
     (if a = (oid, cell) then textRequests oid cell t else [])"
proof (cases "a = (oid, cell)")
  case True
  then show ?thesis by (simp add: filter_all addresses_textRequests)
next
  case False
  have "filter (\<lambda>q. addresses q = Some a) (textRequests oid cell t) = []"
    by (rule filter_none) (use False in \<open>auto dest: addresses_textRequests\<close>)
  then show ?thesis using False by simp
qed

lemma CellLocation_eta: "\<lparr>rowIndex = rowIndex loc, columnIndex = columnIndex loc\<rparr> = (loc :: CellLocation)"
  by (cases loc) simp

lemma filter_rowRequests:
  "filter (\<lambda>q. addresses q = Some (tid', cl)) (rowRequests tid r c row) =
     (case cl of
        None \<Rightarrow> []
      | Some loc \<Rightarrow>
          if tid' = tid \<and> rowIndex loc = r \<and> c \<le> columnIndex loc \<and> columnIndex loc < c + length row
          then textRequests tid cl (row ! (columnIndex loc - c)) else [])"
proof (induction row arbitrary: c)
  case Nil
  show ?case by (auto split: option.split)
next
  case (Cons cell row)
  show ?case
  proof (cases cl)
    case None
    then show ?thesis using Cons.IH [of "Suc c"] by (simp add: filter_textRequests)
  next
    case (Some loc)
    show ?thesis
    proof (cases "columnIndex loc = c")
      case True
      then have "loc = \<lparr>rowIndex = r, columnIndex = c\<rparr> \<longleftrightarrow> rowIndex loc = r" by (cases loc) auto
      then show ?thesis using Some True Cons.IH [of "Suc c"]
        by (auto simp: filter_textRequests CellLocation_eta)
    next
      case False
      then have ne: "loc \<noteq> \<lparr>rowIndex = r, columnIndex = c\<rparr>" by auto
      have "columnIndex loc - c = Suc (columnIndex loc - Suc c)" if "c \<le> columnIndex loc"
        using that False by arith
      then show ?thesis using Some False ne Cons.IH [of "Suc c"]
        by (auto simp: filter_textRequests)
    qed
  qed
qed

lemma filter_cellRequests:
  "filter (\<lambda>q. addresses q = Some (tid', cl)) (cellRequests tid r rws) =
     (case cl of
        None \<Rightarrow> []
      | Some loc \<Rightarrow>
          if tid' = tid \<and> r \<le> rowIndex loc \<and> rowIndex loc < r + length rws
               \<and> columnIndex loc < length (rws ! (rowIndex loc - r))
          then textRequests tid cl (rws ! (rowIndex loc - r) ! columnIndex loc) else [])"
proof (induction rws arbitrary: r)
  case Nil
  show ?case by (auto split: option.split)
next
  case (Cons row rws)
  show ?case
  proof (cases cl)
    case None
    then show ?thesis using Cons.IH [of "Suc r"] by (simp add: filter_rowRequests)
  next
    case (Some loc)
    show ?thesis
    proof (cases "rowIndex loc = r")
      case True
      then show ?thesis using Some Cons.IH [of "Suc r"]
        by (auto simp: filter_rowRequests)
    next
      case False
      have "rowIndex loc - r = Suc (rowIndex loc - Suc r)" if "r \<le> rowIndex loc"
        using that False by arith
      then show ?thesis using Some False Cons.IH [of "Suc r"]
        by (auto simp: filter_rowRequests)
    qed
  qed
qed

lemma filter_tableRequests:
  "filter (\<lambda>q. addresses q = Some (tid', cl)) (tableRequests page tid t) =
     (case cl of
        None \<Rightarrow> []
      | Some loc \<Rightarrow>
          if tid' = tid \<and> rowIndex loc < length (cells t)
               \<and> columnIndex loc < length (cells t ! rowIndex loc)
          then textRequests tid cl (cells t ! rowIndex loc ! columnIndex loc) else [])"
  using filter_cellRequests [of tid' cl tid 0 "cells t"]
  by (simp add: tableRequests_def split: option.split)

lemma filter_concat_zip_none:
  assumes "\<And>x oid. oid \<in> set ids \<Longrightarrow> filter P (f (x, oid)) = []"
  shows "filter P (concat (map f (zip xs ids))) = []"
proof -
  have "filter P (f p) = []" if "p \<in> set (zip xs ids)" for p
  proof -
    obtain x oid where p: "p = (x, oid)" by (cases p)
    with that have "oid \<in> set ids" by (auto dest: set_zip_rightD)
    then show ?thesis using assms [of oid x] p by simp
  qed
  then show ?thesis by (simp add: filter_concat)
qed

lemma filter_concat_zip_nth:
  assumes "distinct ids" and "k < length xs" and "k < length ids"
    and "\<And>x oid. oid \<noteq> ids ! k \<Longrightarrow> filter P (f (x, oid)) = []"
  shows "filter P (concat (map f (zip xs ids))) = filter P (f (xs ! k, ids ! k))"
  using assms
proof (induction xs arbitrary: ids k)
  case Nil
  then show ?case by simp
next
  case (Cons x xs)
  from Cons.prems obtain i ids' where ids: "ids = i # ids'" by (cases ids) auto
  show ?case
  proof (cases k)
    case 0
    have "filter P (concat (map f (zip xs ids'))) = []"
    proof (rule filter_concat_zip_none)
      fix y oid assume "oid \<in> set ids'"
      then have "oid \<noteq> ids ! k" using Cons.prems(1) ids 0 by auto
      then show "filter P (f (y, oid)) = []" by (rule Cons.prems(4))
    qed
    then show ?thesis using ids 0 by simp
  next
    case (Suc k')
    have "i \<noteq> ids ! k" using Cons.prems(1,3) ids Suc by auto
    then have a: "filter P (f (x, i)) = []" by (rule Cons.prems(4))
    have "filter P (concat (map f (zip xs ids'))) = filter P (f (xs ! k', ids' ! k'))"
    proof (rule Cons.IH)
      show "distinct ids'" using Cons.prems(1) ids by simp
      show "k' < length xs" using Cons.prems(2) Suc by simp
      show "k' < length ids'" using Cons.prems(3) ids Suc by simp
      fix y oid assume "oid \<noteq> ids' ! k'"
      then have "oid \<noteq> ids ! k" using ids Suc by simp
      then show "filter P (f (y, oid)) = []" by (rule Cons.prems(4))
    qed
    then show ?thesis using a ids Suc by simp
  qed
qed

lemma filter_placeholderRequests:
  "filter (\<lambda>q. addresses q = Some (oid, cl)) (placeholderRequests t element) =
     (if element = Some oid \<and> cl = None then placeholderRequests t element else [])"
  by (auto simp: placeholderRequests_def filter_textRequests split: option.split)

lemma filter_backgroundRequests:
  "filter (\<lambda>q. addresses q = Some a) (backgroundRequests page bg) = []"
  by (simp add: backgroundRequests_def split: option.split)

lemma filter_imageRequests:
  "filter (\<lambda>q. addresses q = Some a) (imageRequests page imgs) = []"
  by (rule filter_none) (auto simp: imageRequests_def split: option.splits)

lemma filter_videoRequests:
  "filter (\<lambda>q. addresses q = Some a) (map (\<lambda>v. CreateVideo page (videoId v)) vs) = []"
  by (rule filter_none) auto

lemma filter_bodyRequests:
  "filter (\<lambda>q. addresses q = Some (oid, cl)) (bodyRequests page (b, oid')) =
     (if oid = oid' \<and> cl = None then textRequests oid' None (bodyText b) else [])"
  by (auto simp: bodyRequests_def filter_textRequests filter_imageRequests filter_videoRequests)

lemma filter_shapes:
  "filter (\<lambda>q. addresses q = Some a) (map (\<lambda>oid. CreateShape oid page) ids) = []"
  by (rule filter_none) auto

lemma distinctElements_bodies:
  assumes "distinctElements bound" and "i < length (bodyElements bound)"
  shows "distinct (bodyElements bound)"
    and "titleElement bound \<noteq> Some (bodyElements bound ! i)"
    and "subtitleElement bound \<noteq> Some (bodyElements bound ! i)"
    and "notesElement bound \<noteq> Some (bodyElements bound ! i)"
  using assms by (auto simp: distinctElements_def split: option.splits)

lemma distinctElements_tables: "distinctElements bound \<Longrightarrow> distinct (tableElements bound)"
  by (simp add: distinctElements_def)

text \<open>The operations on a body element are the ones of its body, in their order.\<close>

lemma body_projection:
  assumes d: "distinctElements bound"
    and i: "i < length (bodies slide)" "i < length (bodyElements bound)"
  shows "filter (\<lambda>q. addresses q = Some (bodyElements bound ! i, None)) (generate bound slide)
         = textRequests (bodyElements bound ! i) None (bodyText (bodies slide ! i))"
proof -
  let ?oid = "bodyElements bound ! i"
  let ?P = "\<lambda>q. addresses q = Some (?oid, None)"
  note de = distinctElements_bodies [OF d i(2)]
  have tables: "filter ?P (concat (map (\<lambda>tt. tableRequests (objectId slide) (snd tt) (fst tt))
           (zip (tables slide) (tableElements bound)))) = []"
    by (rule filter_concat_zip_none) (simp add: filter_tableRequests)
  have "filter ?P (concat (map (bodyRequests (objectId slide)) (zip (bodies slide) (bodyElements bound))))
        = filter ?P (bodyRequests (objectId slide) (bodies slide ! i, ?oid))"
    by (rule filter_concat_zip_nth [OF de(1) i]) (simp add: filter_bodyRequests)
  then have bodies: "filter ?P (concat (map (bodyRequests (objectId slide)) (zip (bodies slide) (bodyElements bound))))
        = textRequests ?oid None (bodyText (bodies slide ! i))"
    by (simp add: filter_bodyRequests)
  show ?thesis
    using de(2,3,4)
    by (simp add: generate_def appendContentRequests_def contentRequests_def filter_shapes
        filter_placeholderRequests filter_backgroundRequests tables bodies)
qed

text \<open>The operations on a cell of a table are the ones of that cell, in their order.\<close>

lemma cell_projection:
  assumes d: "distinctElements bound"
    and k: "k < length (tables slide)" "k < length (tableElements bound)"
    and r: "r < length (cells (tables slide ! k))"
    and c: "c < length (cells (tables slide ! k) ! r)"
  shows "filter (\<lambda>q. addresses q = Some (tableElements bound ! k, Some \<lparr>rowIndex = r, columnIndex = c\<rparr>))
           (generate bound slide)
         = textRequests (tableElements bound ! k) (Some \<lparr>rowIndex = r, columnIndex = c\<rparr>)
             (cells (tables slide ! k) ! r ! c)"
proof -
  let ?tid = "tableElements bound ! k"
  let ?loc = "\<lparr>rowIndex = r, columnIndex = c\<rparr>"
  let ?P = "\<lambda>q. addresses q = Some (?tid, Some ?loc)"
  have bodies: "filter ?P (concat (map (bodyRequests (objectId slide)) (zip (bodies slide) (bodyElements bound)))) = []"
    by (rule filter_concat_zip_none) (simp add: filter_bodyRequests)
  have "filter ?P (concat (map (\<lambda>tt. tableRequests (objectId slide) (snd tt) (fst tt))
           (zip (tables slide) (tableElements bound))))
        = filter ?P (tableRequests (objectId slide) ?tid (tables slide ! k))"
    using filter_concat_zip_nth [OF distinctElements_tables [OF d] k, of ?P
        "\<lambda>tt. tableRequests (objectId slide) (snd tt) (fst tt)"]
    by (simp add: filter_tableRequests)
  then have tables: "filter ?P (concat (map (\<lambda>tt. tableRequests (objectId slide) (snd tt) (fst tt))
           (zip (tables slide) (tableElements bound))))
        = textRequests ?tid (Some ?loc) (cells (tables slide ! k) ! r ! c)"
    using r c by (simp add: filter_tableRequests)
  show ?thesis
    by (simp add: generate_def appendContentRequests_def contentRequests_def filter_shapes
        filter_placeholderRequests filter_backgroundRequests tables bodies)
qed

subsection \<open>The style operation of a bold run\<close>

lemma count_list_filter: "P x \<Longrightarrow> count_list (filter P xs) x = count_list xs x"
  by (induction xs) auto

lemma count_list_map_inj:
  "(\<And>y. y \<in> set xs \<Longrightarrow> f y = f x \<Longrightarrow> y = x) \<Longrightarrow> count_list (map f xs) (f x) = count_list xs x"
  by (induction xs) auto

lemma precedes_filter:
  "filter P xs = a # rest \<Longrightarrow> b \<in> set rest \<Longrightarrow> precedes a b xs"
proof (induction xs)
  case Nil
  then show ?case by simp
next
  case (Cons x xs)
  show ?case
  proof (cases "P x")
    case True
    with Cons.prems have "x = a" and "rest = filter P xs" by simp_all
    with Cons.prems(2) show ?thesis by (simp add: precedes_def)
  next
    case False
    with Cons.prems have f: "filter P xs = a # rest" by simp
    then have "a \<in> set (filter P xs)" by simp
    then have "P a" by simp
    with False have "x \<noteq> a" by auto
    then show ?thesis using Cons.IH [OF f Cons.prems(2)] by (simp add: precedes_def)
  qed
qed

lemma count_style_textRequests:
  "count_list (textRequests oid cell t) (UpdateTextStyle oid cell s e st)
     = count_list (textRuns t) \<lparr>start = s, end' = e, effect = st\<rparr>"
proof -
  let ?g = "\<lambda>run :: StyleRange. UpdateTextStyle oid cell (start run) (end' run) (effect run)"
  have "count_list (map ?g (textRuns t)) (?g \<lparr>start = s, end' = e, effect = st\<rparr>)
        = count_list (textRuns t) \<lparr>start = s, end' = e, effect = st\<rparr>"
    by (rule count_list_map_inj) simp
  moreover have "count_list (map (\<lambda>m :: ListRange. CreateParagraphBullets oid cell (start m) (end' m) (kind m))
      (listMarkers t)) (UpdateTextStyle oid cell s e st) = 0"
    by (rule count_notin) auto
  ultimately show ?thesis by (simp add: textRequests_def)
qed

text \<open>
  C2. Take a body of a slide whose text has the bold run over the characters 0 to 4,
  once. The generator emits exactly one style operation on the body's element with
  \<open>startIndex = 0\<close>, \<open>endIndex = 4\<close> and the bold effect alone, and it comes after the
  insertion of the body's plain text: the operations on that element are the insertion,
  then one style operation for each run, then the bullets.
\<close>

theorem bold_run_styled_once_after_insertion:
  assumes "i < length (bodies slide)" and "i < length (bodyElements bound)"
    and "distinctElements bound"
    and "count_list (textRuns (bodyText (bodies slide ! i)))
           \<lparr>start = 0, end' = 4, effect = boldOnly\<rparr> = 1"
  shows "count_list (generate bound slide) (UpdateTextStyle (bodyElements bound ! i) None 0 4 boldOnly) = 1
    \<and> precedes (InsertText (bodyElements bound ! i) None (rawText (bodyText (bodies slide ! i))))
        (UpdateTextStyle (bodyElements bound ! i) None 0 4 boldOnly) (generate bound slide)
    \<and> filter (\<lambda>q. addresses q = Some (bodyElements bound ! i, None)) (generate bound slide)
        = InsertText (bodyElements bound ! i) None (rawText (bodyText (bodies slide ! i)))
          # map (\<lambda>run. UpdateTextStyle (bodyElements bound ! i) None (start run) (end' run) (effect run))
              (textRuns (bodyText (bodies slide ! i)))
          @ map (\<lambda>m. CreateParagraphBullets (bodyElements bound ! i) None (start m) (end' m) (kind m))
              (listMarkers (bodyText (bodies slide ! i)))"
proof -
  let ?oid = "bodyElements bound ! i"
  let ?t = "bodyText (bodies slide ! i)"
  let ?op = "UpdateTextStyle ?oid None 0 4 boldOnly"
  let ?P = "\<lambda>q. addresses q = Some (?oid, None)"
  have proj: "filter ?P (generate bound slide) = textRequests ?oid None ?t"
    using assms(3,1,2) by (rule body_projection)
  have "count_list (generate bound slide) ?op = count_list (filter ?P (generate bound slide)) ?op"
    by (rule count_list_filter [symmetric]) simp
  then have one: "count_list (generate bound slide) ?op = 1"
    using assms(4) by (simp add: proj count_style_textRequests)
  have "count_list (textRequests ?oid None ?t) ?op \<noteq> 0"
    using assms(4) by (simp add: count_style_textRequests)
  then have "?op \<in> set (textRequests ?oid None ?t)"
    by (simp add: count_list_0_iff)
  then have mem: "?op \<in> set (map (\<lambda>run. UpdateTextStyle ?oid None (start run) (end' run) (effect run)) (textRuns ?t)
          @ map (\<lambda>m. CreateParagraphBullets ?oid None (start m) (end' m) (kind m)) (listMarkers ?t))"
    by (simp add: textRequests_def)
  have "precedes (InsertText ?oid None (rawText ?t)) ?op (generate bound slide)"
    by (rule precedes_filter [of ?P, OF _ mem]) (simp add: proj textRequests_def)
  then show ?thesis using one proj by (simp add: textRequests_def)
qed

subsection \<open>The operations of a table\<close>

lemma cellInsertion_textRequests:
  "filter (cellInsertion tid') (textRequests oid cell t) =
     (if oid = tid' \<and> cell \<noteq> None then [InsertText oid cell (rawText t)] else [])"
proof -
  have "filter (cellInsertion tid')
      (map (\<lambda>run :: StyleRange. UpdateTextStyle oid cell (start run) (end' run) (effect run)) xs) = []" for xs
    by (rule filter_none) auto
  moreover have "filter (cellInsertion tid')
      (map (\<lambda>m :: ListRange. CreateParagraphBullets oid cell (start m) (end' m) (kind m)) ys) = []" for ys
    by (rule filter_none) auto
  ultimately show ?thesis
    by (cases cell) (simp_all add: textRequests_def)
qed

lemma cellInsertion_rowRequests:
  "filter (cellInsertion tid') (rowRequests tid r c row) =
     (if tid = tid' then
        map (\<lambda>j. InsertText tid (Some \<lparr>rowIndex = r, columnIndex = c + j\<rparr>) (rawText (row ! j)))
          [0..<length row]
      else [])"
proof (induction row arbitrary: c)
  case Nil
  show ?case by simp
next
  case (Cons cell row)
  show ?case
    using Cons.IH [of "Suc c"]
    by (simp add: cellInsertion_textRequests map_upt_Suc del: upt_Suc)
qed

lemma cellInsertion_cellRequests:
  "filter (cellInsertion tid') (cellRequests tid r rws) =
     (if tid = tid' then
        concat (map (\<lambda>i. map (\<lambda>j. InsertText tid (Some \<lparr>rowIndex = r + i, columnIndex = j\<rparr>)
                                 (rawText (rws ! i ! j))) [0..<length (rws ! i)])
          [0..<length rws])
      else [])"
proof (induction rws arbitrary: r)
  case Nil
  show ?case by simp
next
  case (Cons row rws)
  show ?case
    using Cons.IH [of "Suc r"]
    by (simp add: cellInsertion_rowRequests map_upt_Suc del: upt_Suc)
qed

lemma cellInsertion_tableRequests:
  assumes "wellShaped t"
  shows "filter (cellInsertion tid') (tableRequests page tid t) =
     (if tid = tid' then
        concat (map (\<lambda>r. map (\<lambda>c. InsertText tid (Some \<lparr>rowIndex = r, columnIndex = c\<rparr>)
                                 (rawText (cells t ! r ! c))) [0..<columns t])
          [0..<rows t])
      else [])"
proof -
  from assms have len: "length (cells t) = rows t"
    and row: "\<And>r. r < rows t \<Longrightarrow> length (cells t ! r) = columns t"
    by (auto simp: wellShaped_def list_all_length)
  have eq: "concat (map (\<lambda>i. map (\<lambda>j. InsertText tid (Some \<lparr>rowIndex = i, columnIndex = j\<rparr>)
                                 (rawText (cells t ! i ! j))) [0..<length (cells t ! i)]) [0..<rows t])
      = concat (map (\<lambda>r. map (\<lambda>c. InsertText tid (Some \<lparr>rowIndex = r, columnIndex = c\<rparr>)
                                 (rawText (cells t ! r ! c))) [0..<columns t]) [0..<rows t])"
    by (rule arg_cong [where f = concat], rule map_cong) (simp_all add: row)
  have "filter (cellInsertion tid') (tableRequests page tid t)
        = filter (cellInsertion tid') (cellRequests tid 0 (cells t))"
    by (simp add: tableRequests_def)
  also have "\<dots> = (if tid = tid' then
        concat (map (\<lambda>i. map (\<lambda>j. InsertText tid (Some \<lparr>rowIndex = i, columnIndex = j\<rparr>)
                                 (rawText (cells t ! i ! j))) [0..<length (cells t ! i)]) [0..<rows t])
      else [])"
    using cellInsertion_cellRequests [of tid' tid 0 "cells t"] by (simp add: len)
  finally show ?thesis by (simp only: eq)
qed

lemma cellInsertion_tableRequests_other:
  "tid \<noteq> tid' \<Longrightarrow> filter (cellInsertion tid') (tableRequests page tid t) = []"
  using cellInsertion_cellRequests [of tid' tid 0 "cells t"]
  by (simp add: tableRequests_def)

lemma cellInsertion_placeholderRequests:
  "filter (cellInsertion tid) (placeholderRequests t element) = []"
  by (simp add: placeholderRequests_def cellInsertion_textRequests split: option.split)

lemma cellInsertion_bodyRequests:
  "filter (cellInsertion tid) (bodyRequests page bo) = []"
proof -
  have "filter (cellInsertion tid) (imageRequests page imgs) = []" for imgs
    by (rule filter_none) (auto simp: imageRequests_def split: option.splits)
  moreover have "filter (cellInsertion tid) (map (\<lambda>v. CreateVideo page (videoId v)) vs) = []"
    for vs :: "VideoDefinition list"
    by (rule filter_none) auto
  ultimately show ?thesis by (simp add: bodyRequests_def cellInsertion_textRequests)
qed

lemma cellInsertion_generate:
  assumes d: "distinctElements bound"
    and k: "k < length (tables slide)" "k < length (tableElements bound)"
  shows "filter (cellInsertion (tableElements bound ! k)) (generate bound slide)
         = filter (cellInsertion (tableElements bound ! k))
             (tableRequests (objectId slide) (tableElements bound ! k) (tables slide ! k))"
proof -
  let ?P = "cellInsertion (tableElements bound ! k)"
  have shapes: "filter ?P (map (\<lambda>oid. CreateShape oid (objectId slide)) (allocated bound)) = []"
    by (rule filter_none) auto
  have bg: "filter ?P (backgroundRequests (objectId slide) (backgroundImage slide)) = []"
    by (simp add: backgroundRequests_def split: option.split)
  have bodies: "filter ?P (concat (map (bodyRequests (objectId slide)) (zip (bodies slide) (bodyElements bound)))) = []"
    by (simp add: filter_concat cellInsertion_bodyRequests)
  have tables: "filter ?P (concat (map (\<lambda>tt. tableRequests (objectId slide) (snd tt) (fst tt))
           (zip (tables slide) (tableElements bound))))
        = filter ?P (tableRequests (objectId slide) (tableElements bound ! k) (tables slide ! k))"
    using filter_concat_zip_nth [OF distinctElements_tables [OF d] k, of ?P
        "\<lambda>tt. tableRequests (objectId slide) (snd tt) (fst tt)"]
    by (simp add: cellInsertion_tableRequests_other)
  show ?thesis
    by (simp add: generate_def appendContentRequests_def contentRequests_def shapes bg bodies
        tables cellInsertion_placeholderRequests)
qed

lemma isCreateTable_textRequests: "filter isCreateTable (textRequests oid cell t) = []"
  by (rule filter_none) (auto simp: textRequests_def)

lemma isCreateTable_rowRequests: "filter isCreateTable (rowRequests tid r c row) = []"
  by (induction row arbitrary: c) (simp_all add: isCreateTable_textRequests)

lemma isCreateTable_cellRequests: "filter isCreateTable (cellRequests tid r rws) = []"
  by (induction rws arbitrary: r) (simp_all add: isCreateTable_rowRequests)

lemma isCreateTable_tableRequests:
  "filter isCreateTable (tableRequests page tid t) = [CreateTable tid page (rows t) (columns t)]"
  by (simp add: tableRequests_def isCreateTable_cellRequests)

lemma isCreateTable_bodyRequests: "filter isCreateTable (bodyRequests page bo) = []"
proof -
  have "filter isCreateTable (imageRequests page imgs) = []" for imgs
    by (rule filter_none) (auto simp: imageRequests_def split: option.splits)
  moreover have "filter isCreateTable (map (\<lambda>v. CreateVideo page (videoId v)) vs) = []"
    for vs :: "VideoDefinition list"
    by (rule filter_none) auto
  ultimately show ?thesis by (simp add: bodyRequests_def isCreateTable_textRequests)
qed

lemma isCreateTable_generate:
  "filter isCreateTable (generate bound slide)
     = map (\<lambda>tt. CreateTable (snd tt) (objectId slide) (rows (fst tt)) (columns (fst tt)))
         (zip (tables slide) (tableElements bound))"
proof -
  have shapes: "filter isCreateTable (map (\<lambda>oid. CreateShape oid (objectId slide)) (allocated bound)) = []"
    by (rule filter_none) auto
  have bg: "filter isCreateTable (backgroundRequests (objectId slide) (backgroundImage slide)) = []"
    by (simp add: backgroundRequests_def split: option.split)
  have ph: "filter isCreateTable (placeholderRequests t element) = []" for t element
    by (simp add: placeholderRequests_def isCreateTable_textRequests split: option.split)
  have bodies: "filter isCreateTable (concat (map (bodyRequests (objectId slide)) (zip (bodies slide) (bodyElements bound)))) = []"
    by (simp add: filter_concat isCreateTable_bodyRequests)
  have tables: "filter isCreateTable (concat (map (\<lambda>tt. tableRequests (objectId slide) (snd tt) (fst tt)) xs))
      = map (\<lambda>tt. CreateTable (snd tt) (objectId slide) (rows (fst tt)) (columns (fst tt))) xs" for xs
    by (induction xs) (simp_all add: isCreateTable_tableRequests)
  show ?thesis
    by (simp add: generate_def appendContentRequests_def contentRequests_def shapes bg ph bodies tables)
qed

text \<open>
  C4. For a table of a slide with \<open>rows\<close> rows of \<open>columns\<close> cells (5 and 2 in the
  test), the generator emits one create-table operation for each table, with the
  table's \<open>rows\<close> and \<open>columns\<close> and on the slide's page; the insertions into the cells
  of the table come row by row, each with the \<open>rowIndex\<close> and \<open>columnIndex\<close> of its
  cell; and the operations on one cell are its insertion first, then its style and
  bullet operations.
\<close>

theorem table_cells_row_major:
  assumes "k < length (tables slide)" and "k < length (tableElements bound)"
    and "distinctElements bound" and "wellShaped (tables slide ! k)"
  shows "filter isCreateTable (generate bound slide)
           = map (\<lambda>tt. CreateTable (snd tt) (objectId slide) (rows (fst tt)) (columns (fst tt)))
               (zip (tables slide) (tableElements bound))
    \<and> filter (cellInsertion (tableElements bound ! k)) (generate bound slide)
        = concat (map (\<lambda>r. map (\<lambda>c. InsertText (tableElements bound ! k)
                                     (Some \<lparr>rowIndex = r, columnIndex = c\<rparr>)
                                     (rawText (cells (tables slide ! k) ! r ! c)))
                            [0..<columns (tables slide ! k)])
            [0..<rows (tables slide ! k)])
    \<and> (\<forall>r<rows (tables slide ! k). \<forall>c<columns (tables slide ! k).
          filter (\<lambda>q. addresses q = Some (tableElements bound ! k, Some \<lparr>rowIndex = r, columnIndex = c\<rparr>))
            (generate bound slide)
          = InsertText (tableElements bound ! k) (Some \<lparr>rowIndex = r, columnIndex = c\<rparr>)
              (rawText (cells (tables slide ! k) ! r ! c))
            # map (\<lambda>run. UpdateTextStyle (tableElements bound ! k)
                           (Some \<lparr>rowIndex = r, columnIndex = c\<rparr>) (start run) (end' run) (effect run))
                (textRuns (cells (tables slide ! k) ! r ! c))
            @ map (\<lambda>m. CreateParagraphBullets (tableElements bound ! k)
                           (Some \<lparr>rowIndex = r, columnIndex = c\<rparr>) (start m) (end' m) (kind m))
                (listMarkers (cells (tables slide ! k) ! r ! c)))"
proof -
  let ?t = "tables slide ! k"
  from assms(4) have len: "length (cells ?t) = rows ?t"
    and row: "\<And>r. r < rows ?t \<Longrightarrow> length (cells ?t ! r) = columns ?t"
    by (auto simp: wellShaped_def list_all_length)
  have a: "filter (cellInsertion (tableElements bound ! k)) (generate bound slide)
        = concat (map (\<lambda>r. map (\<lambda>c. InsertText (tableElements bound ! k)
                                     (Some \<lparr>rowIndex = r, columnIndex = c\<rparr>)
                                     (rawText (cells ?t ! r ! c)))
                            [0..<columns ?t])
            [0..<rows ?t])"
    using cellInsertion_generate [OF assms(3,1,2)] cellInsertion_tableRequests [OF assms(4)]
    by simp
  have b: "filter (\<lambda>q. addresses q = Some (tableElements bound ! k, Some \<lparr>rowIndex = r, columnIndex = c\<rparr>))
            (generate bound slide)
          = textRequests (tableElements bound ! k) (Some \<lparr>rowIndex = r, columnIndex = c\<rparr>)
              (cells ?t ! r ! c)"
    if "r < rows ?t" and "c < columns ?t" for r c
    using that cell_projection [OF assms(3,1,2), of r c] by (simp add: len row)
  show ?thesis
    using a b isCreateTable_generate [of bound slide] by (simp add: textRequests_def)
qed

subsection \<open>The element of the second body\<close>




section \<open>The properties at sample inputs\<close>




theorem unknown_properties_ignored_witness:
  "\<not> recognized (sameKey ''zIndex'') \<and> \<not> recognized (sameKey ''margin'')
   \<and> \<not> recognized (sameKey ''12'')
   \<and> updateStyleDefinition sameKey sampleParseColor
        [(''zIndex'', ''3''), (''margin'', ''0 auto''), (''12'', ''x'')] plainStyle = plainStyle
   \<and> applyDeclaration sampleParseColor plainStyle (''zIndex'', ''3'') = plainStyle"
proof -
  have h: "\<not> recognized (sameKey ''zIndex'') \<and> \<not> recognized (sameKey ''margin'')
      \<and> \<not> recognized (sameKey ''12'')"
    by (simp add: recognized_def sameKey_def)
  then have a: "\<forall>kv\<in>set [(''zIndex'', ''3''), (''margin'', ''0 auto''), (''12'', ''x'')].
      \<not> recognized (sameKey (fst kv))"
    by simp
  have r: "\<not> recognized ''zIndex''" by (simp add: recognized_def)
  from unknown_properties_ignored [of sameKey sampleParseColor
      "[(''zIndex'', ''3''), (''margin'', ''0 auto''), (''12'', ''x'')]" plainStyle "''zIndex''" "''3''"]
    a r
  have "updateStyleDefinition sameKey sampleParseColor
        [(''zIndex'', ''3''), (''margin'', ''0 auto''), (''12'', ''x'')] plainStyle = plainStyle
   \<and> applyDeclaration sampleParseColor plainStyle (''zIndex'', ''3'') = plainStyle"
    by blast
  then show ?thesis using h by blast
qed

theorem color_channels_witness:
  "rgba (sampleParseColor ''#ff8000'') = Some (255, 128, 0, 1)
   \<and> parseColorString sampleParseColor ''#ff8000''
       = Some \<lparr>opaqueColor = \<lparr>rgbColor = \<lparr>red = 1, green = 128 / 255, blue = 0\<rparr>\<rparr>\<rparr>
   \<and> rgba (sampleParseColor ''no such colour'') = None
   \<and> parseColorString sampleParseColor ''no such colour'' = None"
proof -
  have a: "rgba (sampleParseColor ''#ff8000'') = Some (255, 128, 0, 1)"
    by (simp add: sampleParseColor_def)
  have b: "rgba (sampleParseColor ''no such colour'') = None"
    by (simp add: sampleParseColor_def)
  from color_channels [of sampleParseColor "''#ff8000''" 255 128 0 1 sameKey "[]" plainStyle] a
  have "parseColorString sampleParseColor ''#ff8000''
       = Some \<lparr>opaqueColor = \<lparr>rgbColor = \<lparr>red = 1, green = 128 / 255, blue = 0\<rparr>\<rparr>\<rparr>"
    by simp
  moreover from color_channels [of sampleParseColor "''no such colour''" 0 0 0 0 sameKey "[]" plainStyle] b
  have "parseColorString sampleParseColor ''no such colour'' = None"
    by blast
  ultimately show ?thesis using a b by simp
qed

text \<open>
  C1 as stated puts every channel of a resolved colour between 0 and 1. The string
  \<open>rgb(300, 0, 0)\<close> resolves to the components 300, 0 and 0, and its red channel is
  \<open>300 / 255\<close>, above 1.
\<close>

theorem color_channel_above_one:
  "rgba (sampleParseColor ''rgb(300, 0, 0)'') = Some (300, 0, 0, 1)
   \<and> parseColorString sampleParseColor ''rgb(300, 0, 0)''
       = Some \<lparr>opaqueColor = \<lparr>rgbColor = \<lparr>red = 300 / 255, green = 0, blue = 0\<rparr>\<rparr>\<rparr>
   \<and> (1 :: real) < 300 / 255"
  by (simp add: sampleParseColor_def parseColorString_def)

theorem style_sheets_total_witness:
  "failingParse ''p { color: red'' = Inl (Error ''missing closing brace'')
   \<and> convertCssToObject failingParse ''p { color: red'' = Inr []"
proof -
  have a: "failingParse ''p { color: red'' = Inl (Error ''missing closing brace'')"
    by (simp add: failingParse_def)
  from style_sheets_total [of failingParse None dummyRuleOf "''color: red''" "''p { color: red''"
      "Error ''missing closing brace''"] a
  show ?thesis by blast
qed

theorem convertRemoteSVG_identity_witness:
  "url kittenImage = Some ''https://placekitten.com/350/315''
   \<and> \<not> endsWith (toLowerCase ''https://placekitten.com/350/315'') ''.svg''
   \<and> convertRemoteSVG failingGet pngRenderer kittenImage = Inr kittenImage"
proof -
  have a: "url kittenImage = Some ''https://placekitten.com/350/315''"
    by (simp add: kittenImage_def)
  have b: "\<not> endsWith (toLowerCase ''https://placekitten.com/350/315'') ''.svg''"
    by (simp add: endsWith_def toLowerCase_def lowerChar_def)
  from a b have "url kittenImage = None \<or> (\<exists>u. url kittenImage = Some u \<and>
      (\<not> endsWith (toLowerCase u) ''.svg'' \<or> startsWith u ''file://''))" by blast
  from convertRemoteSVG_identity [OF this, of failingGet pngRenderer] a b
  show ?thesis by blast
qed

theorem convertRemoteSVG_failure_keeps_image_witness:
  "url remoteSvgImage = Some ''https://example.com/logo.svg''
   \<and> failingGet ''https://example.com/logo.svg'' = Inl (Error ''timeout of 30000ms exceeded'')
   \<and> convertRemoteSVG failingGet pngRenderer remoteSvgImage = Inr remoteSvgImage"
proof -
  have a: "url remoteSvgImage = Some ''https://example.com/logo.svg''"
    by (simp add: remoteSvgImage_def)
  have b: "failingGet ''https://example.com/logo.svg'' = Inl (Error ''timeout of 30000ms exceeded'')"
    by (simp add: failingGet_def)
  from convertRemoteSVG_failure_keeps_image [of failingGet pngRenderer remoteSvgImage
      "''https://example.com/logo.svg''" "Error ''timeout of 30000ms exceeded''" "[]"] a b
  show ?thesis by blast
qed

theorem uploadLocalImage_outcome_witness:
  "uploadReply ''/tmp/file.png''
     = Inr \<lparr>status = Some ''success'',
            data = Some \<lparr>dataUrl = Some ''http://tmpfiles.org/12345/file.png''\<rparr>\<rparr>
   \<and> uploadLocalImage uploadReply noStringify ''/tmp/file.png''
       = Inr ''https://tmpfiles.org/dl/12345/file.png''"
proof -
  have a: "uploadReply ''/tmp/file.png''
     = Inr \<lparr>status = Some ''success'',
            data = Some \<lparr>dataUrl = Some ''http://tmpfiles.org/12345/file.png''\<rparr>\<rparr>"
    by (simp add: uploadReply_def)
  have r: "replaceHost ''http://tmpfiles.org/12345/file.png'' = ''https://tmpfiles.org/dl/12345/file.png''"
    by (simp add: replaceHost_def startsWith_def)
  from uploadLocalImage_outcome [of uploadReply "''/tmp/file.png''" "Error []" noStringify
      "\<lparr>status = Some ''success'',
            data = Some \<lparr>dataUrl = Some ''http://tmpfiles.org/12345/file.png''\<rparr>\<rparr>"
      "\<lparr>dataUrl = Some ''http://tmpfiles.org/12345/file.png''\<rparr>"
      "''http://tmpfiles.org/12345/file.png''" "[]"] a
  have "uploadLocalImage uploadReply noStringify ''/tmp/file.png''
       = Inr (replaceHost ''http://tmpfiles.org/12345/file.png'')"
    by simp
  then show ?thesis using a r by simp
qed

text \<open>
  C8 as stated says the image is dropped when its resolution fails. At a download that
  times out, the function resolves with the image itself, which still has its url.
\<close>

theorem failed_svg_not_dropped:
  "convertRemoteSVG failingGet pngRenderer remoteSvgImage = Inr remoteSvgImage
   \<and> url remoteSvgImage = Some ''https://example.com/logo.svg''"
  by (simp add: convertRemoteSVG_def try_catch_def remoteSvgImage_def failingGet_def
      endsWith_def toLowerCase_def lowerChar_def startsWith_def)

subsection \<open>The generator on the inputs of the tests\<close>

lemma formatted_bound:
  "bodyElements (bind sampleTableId sampleLayout formattedSlide) = [''body-element'', ''body-element-2'']"
  "distinctElements (bind sampleTableId sampleLayout formattedSlide)"
  by (simp_all add: bind_def bindBody_def sampleLayout_def distinctElements_def formattedSlide_def)

theorem bold_run_styled_once_after_insertion_witness:
  "0 < length (bodies formattedSlide)
   \<and> 0 < length (bodyElements (bind sampleTableId sampleLayout formattedSlide))
   \<and> distinctElements (bind sampleTableId sampleLayout formattedSlide)
   \<and> count_list (textRuns (bodyText (bodies formattedSlide ! 0)))
        \<lparr>start = 0, end' = 4, effect = boldOnly\<rparr> = 1
   \<and> count_list (generate (bind sampleTableId sampleLayout formattedSlide) formattedSlide)
        (UpdateTextStyle ''body-element'' None 0 4 boldOnly) = 1
   \<and> precedes (InsertText ''body-element'' None (rawText formattedText))
        (UpdateTextStyle ''body-element'' None 0 4 boldOnly)
        (generate (bind sampleTableId sampleLayout formattedSlide) formattedSlide)"
proof -
  let ?bound = "bind sampleTableId sampleLayout formattedSlide"
  have h1: "0 < length (bodies formattedSlide)" by (simp add: formattedSlide_def)
  have h2: "0 < length (bodyElements ?bound)" by (simp add: formatted_bound)
  have h3: "distinctElements ?bound" by (rule formatted_bound)
  have h4: "count_list (textRuns (bodyText (bodies formattedSlide ! 0)))
        \<lparr>start = 0, end' = 4, effect = boldOnly\<rparr> = 1"
    by (simp add: formattedSlide_def formattedText_def boldOnly_def plainStyle_def)
  have e: "bodyElements ?bound ! 0 = ''body-element''" by (simp add: formatted_bound)
  have t: "bodyText (bodies formattedSlide ! 0) = formattedText" by (simp add: formattedSlide_def)
  from bold_run_styled_once_after_insertion [OF h1 h2 h3 h4]
  have "count_list (generate ?bound formattedSlide)
        (UpdateTextStyle ''body-element'' None 0 4 boldOnly) = 1
   \<and> precedes (InsertText ''body-element'' None (rawText formattedText))
        (UpdateTextStyle ''body-element'' None 0 4 boldOnly)
        (generate ?bound formattedSlide)"
    by (simp only: e t)
  then show ?thesis using h1 h2 h3 h4 by blast
qed

lemma table_bound:
  "tableElements (bind sampleTableId sampleLayout tableSlide) = [''body-slide-table'']"
  "distinctElements (bind sampleTableId sampleLayout tableSlide)"
  by (simp_all add: bind_def bindBody_def sampleLayout_def distinctElements_def tableSlide_def
      sampleTableId_def)

theorem table_cells_row_major_witness:
  "0 < length (tables tableSlide)
   \<and> 0 < length (tableElements (bind sampleTableId sampleLayout tableSlide))
   \<and> distinctElements (bind sampleTableId sampleLayout tableSlide)
   \<and> wellShaped (tables tableSlide ! 0)
   \<and> rows (tables tableSlide ! 0) = 5 \<and> columns (tables tableSlide ! 0) = 2
   \<and> filter isCreateTable (generate (bind sampleTableId sampleLayout tableSlide) tableSlide)
       = [CreateTable ''body-slide-table'' ''body-slide'' 5 2]
   \<and> filter (cellInsertion ''body-slide-table'')
        (generate (bind sampleTableId sampleLayout tableSlide) tableSlide)
       = [InsertText ''body-slide-table'' (Some \<lparr>rowIndex = 0, columnIndex = 0\<rparr>) ''Animal'',
          InsertText ''body-slide-table'' (Some \<lparr>rowIndex = 0, columnIndex = 1\<rparr>) ''Number'',
          InsertText ''body-slide-table'' (Some \<lparr>rowIndex = 1, columnIndex = 0\<rparr>) ''Fish'',
          InsertText ''body-slide-table'' (Some \<lparr>rowIndex = 1, columnIndex = 1\<rparr>) ''142 million'',
          InsertText ''body-slide-table'' (Some \<lparr>rowIndex = 2, columnIndex = 0\<rparr>) ''Cats'',
          InsertText ''body-slide-table'' (Some \<lparr>rowIndex = 2, columnIndex = 1\<rparr>) ''88 million'',
          InsertText ''body-slide-table'' (Some \<lparr>rowIndex = 3, columnIndex = 0\<rparr>) ''Dogs'',
          InsertText ''body-slide-table'' (Some \<lparr>rowIndex = 3, columnIndex = 1\<rparr>) ''75 million'',
          InsertText ''body-slide-table'' (Some \<lparr>rowIndex = 4, columnIndex = 0\<rparr>) ''Birds'',
          InsertText ''body-slide-table'' (Some \<lparr>rowIndex = 4, columnIndex = 1\<rparr>) ''16 million'']"
proof -
  let ?bound = "bind sampleTableId sampleLayout tableSlide"
  have h1: "0 < length (tables tableSlide)" by (simp add: tableSlide_def)
  have h2: "0 < length (tableElements ?bound)" by (simp add: table_bound)
  have h3: "distinctElements ?bound" by (rule table_bound)
  have t: "tables tableSlide ! 0 = animalsTable" by (simp add: tableSlide_def)
  have h4: "wellShaped (tables tableSlide ! 0)"
    by (simp add: t wellShaped_def animalsTable_def)
  have rc: "rows (tables tableSlide ! 0) = 5 \<and> columns (tables tableSlide ! 0) = 2"
    by (simp add: t animalsTable_def)
  have u5: "[0..<5] = [0, 1, 2, 3, 4 :: nat]" by code_simp
  have u2: "[0..<2] = [0, 1 :: nat]" by code_simp
  have e1: "map (\<lambda>tt. CreateTable (snd tt) (objectId tableSlide) (rows (fst tt)) (columns (fst tt)))
               (zip (tables tableSlide) (tableElements ?bound))
        = [CreateTable ''body-slide-table'' ''body-slide'' 5 2]"
    by (simp add: table_bound) (simp add: tableSlide_def animalsTable_def)
  have e2: "concat (map (\<lambda>r. map (\<lambda>c. InsertText (tableElements ?bound ! 0)
                                     (Some \<lparr>rowIndex = r, columnIndex = c\<rparr>)
                                     (rawText (cells (tables tableSlide ! 0) ! r ! c)))
                            [0..<columns (tables tableSlide ! 0)])
            [0..<rows (tables tableSlide ! 0)])
       = [InsertText ''body-slide-table'' (Some \<lparr>rowIndex = 0, columnIndex = 0\<rparr>) ''Animal'',
          InsertText ''body-slide-table'' (Some \<lparr>rowIndex = 0, columnIndex = 1\<rparr>) ''Number'',
          InsertText ''body-slide-table'' (Some \<lparr>rowIndex = 1, columnIndex = 0\<rparr>) ''Fish'',
          InsertText ''body-slide-table'' (Some \<lparr>rowIndex = 1, columnIndex = 1\<rparr>) ''142 million'',
          InsertText ''body-slide-table'' (Some \<lparr>rowIndex = 2, columnIndex = 0\<rparr>) ''Cats'',
          InsertText ''body-slide-table'' (Some \<lparr>rowIndex = 2, columnIndex = 1\<rparr>) ''88 million'',
          InsertText ''body-slide-table'' (Some \<lparr>rowIndex = 3, columnIndex = 0\<rparr>) ''Dogs'',
          InsertText ''body-slide-table'' (Some \<lparr>rowIndex = 3, columnIndex = 1\<rparr>) ''75 million'',
          InsertText ''body-slide-table'' (Some \<lparr>rowIndex = 4, columnIndex = 0\<rparr>) ''Birds'',
          InsertText ''body-slide-table'' (Some \<lparr>rowIndex = 4, columnIndex = 1\<rparr>) ''16 million'']"
    by (simp add: t table_bound animalsTable_def plainText_def u5 u2)
  have e0: "tableElements ?bound ! 0 = ''body-slide-table''" by (simp add: table_bound)
  from table_cells_row_major [OF h1 h2 h3 h4]
  have "filter isCreateTable (generate ?bound tableSlide)
           = map (\<lambda>tt. CreateTable (snd tt) (objectId tableSlide) (rows (fst tt)) (columns (fst tt)))
               (zip (tables tableSlide) (tableElements ?bound))
    \<and> filter (cellInsertion (tableElements ?bound ! 0)) (generate ?bound tableSlide)
        = concat (map (\<lambda>r. map (\<lambda>c. InsertText (tableElements ?bound ! 0)
                                     (Some \<lparr>rowIndex = r, columnIndex = c\<rparr>)
                                     (rawText (cells (tables tableSlide ! 0) ! r ! c)))
                            [0..<columns (tables tableSlide ! 0)])
            [0..<rows (tables tableSlide ! 0)])"
    by blast
  then have "filter isCreateTable (generate ?bound tableSlide)
       = [CreateTable ''body-slide-table'' ''body-slide'' 5 2]
    \<and> filter (cellInsertion ''body-slide-table'') (generate ?bound tableSlide)
       = [InsertText ''body-slide-table'' (Some \<lparr>rowIndex = 0, columnIndex = 0\<rparr>) ''Animal'',
          InsertText ''body-slide-table'' (Some \<lparr>rowIndex = 0, columnIndex = 1\<rparr>) ''Number'',
          InsertText ''body-slide-table'' (Some \<lparr>rowIndex = 1, columnIndex = 0\<rparr>) ''Fish'',
          InsertText ''body-slide-table'' (Some \<lparr>rowIndex = 1, columnIndex = 1\<rparr>) ''142 million'',
          InsertText ''body-slide-table'' (Some \<lparr>rowIndex = 2, columnIndex = 0\<rparr>) ''Cats'',
          InsertText ''body-slide-table'' (Some \<lparr>rowIndex = 2, columnIndex = 1\<rparr>) ''88 million'',
          InsertText ''body-slide-table'' (Some \<lparr>rowIndex = 3, columnIndex = 0\<rparr>) ''Dogs'',
          InsertText ''body-slide-table'' (Some \<lparr>rowIndex = 3, columnIndex = 1\<rparr>) ''75 million'',
          InsertText ''body-slide-table'' (Some \<lparr>rowIndex = 4, columnIndex = 0\<rparr>) ''Birds'',
          InsertText ''body-slide-table'' (Some \<lparr>rowIndex = 4, columnIndex = 1\<rparr>) ''16 million'']"
    unfolding e1 e2 by (simp only: e0)
  then show ?thesis using h1 h2 h3 h4 rc by blast
qed





end
